theory Spec2Isabelle
  imports Complex_Main "HOL-Library.Sublist"
begin

section \<open>Silver price tracker: the modular application\<close>

text \<open>
  The development follows the modular version of the application: \<open>APIManager\<close>,
  \<open>Utils\<close> and \<open>UIRenderer\<close> (assets/js/modules), \<open>DataManager\<close> and the
  \<open>SilverGiftApp\<close> that wires them together.
\<close>

subsection \<open>Numbers printed in template literals\<close>

text \<open>
  A template literal \<open>${n}\<close> prints a non-negative integer below \<open>10^21\<close> in decimal
  without leading zeros.
\<close>

definition digit_char :: "nat \<Rightarrow> char" where
  "digit_char d = ''0123456789'' ! d"

fun string_of_nat :: "nat \<Rightarrow> string" where
  "string_of_nat n =
     (if n < 10 then [digit_char n] else string_of_nat (n div 10) @ [digit_char (n mod 10)])"

declare string_of_nat.simps [simp del]

subsection \<open>Utils: elapsed-time descriptions\<close>

text \<open>
  \<open>new Date(s)\<close> yields a time value: an integer number of milliseconds since the epoch,
  or \<open>NaN\<close> for a string that is not a date (here \<open>None\<close>). The parser is the engine's and
  is a parameter \<open>parse\<close> of the functions that call it; \<open>today\<close> and \<open>now\<close> are the time
  value of \<open>new Date()\<close>. Every comparison with \<open>NaN\<close> is false, which decides the branch
  taken for an invalid date. For the divisors used here and a difference of time values
  below \<open>10^16\<close> milliseconds (some 300 000 years), \<open>Math.floor(a / b)\<close> on doubles is the
  integer quotient: the exact quotient lies further below the next integer than half the
  spacing of doubles there.
\<close>

type_synonym date_parser = "string \<Rightarrow> int option"

definition ms_per_day :: int where
  "ms_per_day = 1000 * 60 * 60 * 24"

definition getTimeDifference :: "date_parser \<Rightarrow> int \<Rightarrow> string \<Rightarrow> string" where
  "getTimeDifference parse today giftDate =
     (case parse giftDate of
        None \<Rightarrow> ''today''
      | Some gift \<Rightarrow>
          (let diffTime = \<bar>today - gift\<bar>;
               diffDays = nat (diffTime div ms_per_day);
               years = diffDays div 365;
               remainingDays = diffDays mod 365
           in if years > 0 \<and> remainingDays > 0 then
                string_of_nat years @ '' '' @ (if years = 1 then ''year'' else ''years'') @ '', ''
                  @ string_of_nat remainingDays @ '' ''
                  @ (if remainingDays = 1 then ''day'' else ''days'') @ '' ago''
              else if years > 0 then
                string_of_nat years @ '' '' @ (if years = 1 then ''year'' else ''years'') @ '' ago''
              else if remainingDays > 0 then
                string_of_nat remainingDays @ '' ''
                  @ (if remainingDays = 1 then ''day'' else ''days'') @ '' ago''
              else ''today''))"

text \<open>
  \<open>getTimeAgo\<close> receives the timestamp of a price sample: \<open>None\<close> stands for a falsy
  value that is not a string (\<open>undefined\<close>, \<open>null\<close>); the empty string is falsy too.
\<close>

definition getTimeAgo :: "date_parser \<Rightarrow> int \<Rightarrow> string option \<Rightarrow> string" where
  "getTimeAgo parse now timestamp =
     (case timestamp of
        None \<Rightarrow> ''unknown time''
      | Some ts \<Rightarrow>
          if ts = [] then ''unknown time''
          else
            (case parse ts of
               None \<Rightarrow> ''NaN years ago''
             | Some thn \<Rightarrow>
                 (let diffMs = now - thn in
                  if diffMs < 0 then ''recently''
                  else
                    (let diffMinutes = nat (diffMs div (1000 * 60));
                         diffHours = nat (diffMs div (1000 * 60 * 60));
                         diffDays = nat (diffMs div (1000 * 60 * 60 * 24))
                     in if diffMinutes < 1 then ''just now''
                        else if diffMinutes < 60 then
                          string_of_nat diffMinutes @ '' minute''
                            @ (if diffMinutes = 1 then [] else ''s'') @ '' ago''
                        else if diffHours < 24 then
                          string_of_nat diffHours @ '' hour''
                            @ (if diffHours = 1 then [] else ''s'') @ '' ago''
                        else if diffDays < 7 then
                          string_of_nat diffDays @ '' day''
                            @ (if diffDays = 1 then [] else ''s'') @ '' ago''
                        else if diffDays < 30 then
                          string_of_nat (diffDays div 7) @ '' week''
                            @ (if diffDays div 7 = 1 then [] else ''s'') @ '' ago''
                        else if diffDays < 365 then
                          string_of_nat (diffDays div 30) @ '' month''
                            @ (if diffDays div 30 = 1 then [] else ''s'') @ '' ago''
                        else
                          string_of_nat (diffDays div 365) @ '' year''
                            @ (if diffDays div 365 = 1 then [] else ''s'') @ '' ago''))))"

text \<open>
  The same description, read off the elapsed milliseconds: the first threshold that the
  elapsed time stays below, in the order minutes, hours, days, weeks, months, years.
\<close>

definition ago :: "nat \<Rightarrow> string \<Rightarrow> string" where
  "ago n unit = string_of_nat n @ '' '' @ unit @ (if n = 1 then [] else ''s'') @ '' ago''"

definition describe_elapsed :: "nat \<Rightarrow> string" where
  "describe_elapsed d =
     (if d < 60000 then ''just now''
      else if d < 3600000 then ago (d div 60000) ''minute''
      else if d < 86400000 then ago (d div 3600000) ''hour''
      else if d < 7 * 86400000 then ago (d div 86400000) ''day''
      else if d < 30 * 86400000 then ago (d div (7 * 86400000)) ''week''
      else if d < 365 * 86400000 then ago (d div (30 * 86400000)) ''month''
      else ago (d div (365 * 86400000)) ''year'')"

subsection \<open>JavaScript numbers\<close>

text \<open>
  A number is \<open>NaN\<close>, an infinity, negative zero, or a finite double held as the real
  number it denotes (\<open>Fin 0\<close> is positive zero). The program compares numbers with
  constants and tests them for truth; both are exact on doubles. Its one arithmetic
  operation, the division \<open>1 / price\<close>, rounds, and is taken from the environment.
\<close>

datatype jsnum = NaN | NegInf | NegZero | Fin real | PosInf

fun num_truthy :: "jsnum \<Rightarrow> bool" where
  "num_truthy NaN = False"
| "num_truthy NegZero = False"
| "num_truthy (Fin r) = (r \<noteq> 0)"
| "num_truthy NegInf = True"
| "num_truthy PosInf = True"

text \<open>\<open>num_ge p c\<close> is \<open>p >= c\<close> and \<open>num_le p c\<close> is \<open>p <= c\<close>, for a finite constant.\<close>

fun num_ge :: "jsnum \<Rightarrow> real \<Rightarrow> bool" where
  "num_ge NaN c = False"
| "num_ge NegInf c = False"
| "num_ge NegZero c = (0 \<ge> c)"
| "num_ge (Fin r) c = (r \<ge> c)"
| "num_ge PosInf c = True"

fun num_le :: "jsnum \<Rightarrow> real \<Rightarrow> bool" where
  "num_le NaN c = False"
| "num_le NegInf c = True"
| "num_le NegZero c = (0 \<le> c)"
| "num_le (Fin r) c = (r \<le> c)"
| "num_le PosInf c = False"

definition isNaN :: "jsnum \<Rightarrow> bool" where
  "isNaN p = (p = NaN)"

subsection \<open>Values loaded from JSON\<close>

text \<open>
  \<open>JSON.parse\<close> yields \<open>null\<close>, booleans, numbers, strings, arrays and plain objects;
  \<open>JObj\<close> lists the members of a parsed object. Arrays and plain objects inherit from
  \<open>Array.prototype\<close> and \<open>Object.prototype\<close>, so a walk along property names can also
  reach a built-in function or one of the two prototype objects.
\<close>

datatype json =
    JNull
  | JBool bool
  | JNum jsnum
  | JStr string
  | JArr "json list"
  | JObj "(string \<times> json) list"

datatype jsval = Undefined | Data json | Function | ObjectPrototype | ArrayPrototype

fun truthy :: "jsval \<Rightarrow> bool" where
  "truthy Undefined = False"
| "truthy (Data JNull) = False"
| "truthy (Data (JBool b)) = b"
| "truthy (Data (JNum n)) = num_truthy n"
| "truthy (Data (JStr s)) = (s \<noteq> [])"
| "truthy (Data (JArr xs)) = True"
| "truthy (Data (JObj kvs)) = True"
| "truthy Function = True"
| "truthy ObjectPrototype = True"
| "truthy ArrayPrototype = True"

fun typeof :: "jsval \<Rightarrow> string" where
  "typeof Undefined = ''undefined''"
| "typeof (Data JNull) = ''object''"
| "typeof (Data (JBool b)) = ''boolean''"
| "typeof (Data (JNum n)) = ''number''"
| "typeof (Data (JStr s)) = ''string''"
| "typeof (Data (JArr xs)) = ''object''"
| "typeof (Data (JObj kvs)) = ''object''"
| "typeof Function = ''function''"
| "typeof ObjectPrototype = ''object''"
| "typeof ArrayPrototype = ''object''"

text \<open>
  The function-valued members of \<open>Object.prototype\<close> and of \<open>Array.prototype\<close>
  (ECMAScript 2023 with Annex B). \<open>__proto__\<close> is the accessor of \<open>Object.prototype\<close>
  that returns the prototype of the object it is read from.
\<close>

definition object_methods :: "string list" where
  "object_methods =
     [''constructor'', ''__defineGetter__'', ''__defineSetter__'', ''hasOwnProperty'',
      ''__lookupGetter__'', ''__lookupSetter__'', ''isPrototypeOf'', ''propertyIsEnumerable'',
      ''toString'', ''valueOf'', ''toLocaleString'']"

definition array_methods :: "string list" where
  "array_methods =
     [''constructor'', ''at'', ''concat'', ''copyWithin'', ''fill'', ''find'', ''findIndex'',
      ''findLast'', ''findLastIndex'', ''lastIndexOf'', ''pop'', ''push'', ''reverse'',
      ''shift'', ''unshift'', ''slice'', ''sort'', ''splice'', ''includes'', ''indexOf'',
      ''join'', ''keys'', ''entries'', ''values'', ''forEach'', ''filter'', ''flat'',
      ''flatMap'', ''map'', ''every'', ''some'', ''reduce'', ''reduceRight'',
      ''toLocaleString'', ''toString'', ''toReversed'', ''toSorted'', ''toSpliced'', ''with'']"

definition array_index :: "string \<Rightarrow> nat \<Rightarrow> nat option" where
  "array_index key n = List.find (\<lambda>i. string_of_nat i = key) [0..<n]"

fun data_member :: "jsval \<Rightarrow> string \<Rightarrow> jsval option" where
  "data_member (Data (JObj kvs)) key = map_option Data (map_of kvs key)"
| "data_member (Data (JArr xs)) key =
     (if key = ''length'' then Some (Data (JNum (Fin (real (length xs)))))
      else map_option (\<lambda>i. Data (xs ! i)) (array_index key (length xs)))"
| "data_member ArrayPrototype key =
     (if key = ''length'' then Some (Data (JNum (Fin 0))) else None)"
| "data_member v key = None"

fun method_names :: "jsval \<Rightarrow> string list" where
  "method_names (Data (JObj kvs)) = object_methods"
| "method_names (Data (JArr xs)) = array_methods @ object_methods"
| "method_names ObjectPrototype = object_methods"
| "method_names ArrayPrototype = array_methods @ object_methods"
| "method_names v = []"

fun prototype_of :: "jsval \<Rightarrow> jsval" where
  "prototype_of (Data (JObj kvs)) = ObjectPrototype"
| "prototype_of (Data (JArr xs)) = ArrayPrototype"
| "prototype_of ArrayPrototype = ObjectPrototype"
| "prototype_of ObjectPrototype = Data JNull"
| "prototype_of v = Undefined"

text \<open>\<open>has_property v key\<close> is \<open>key in v\<close>, and \<open>get_property v key\<close> is \<open>v[key]\<close>, for an object \<open>v\<close>.\<close>

definition has_property :: "jsval \<Rightarrow> string \<Rightarrow> bool" where
  "has_property v key =
     (data_member v key \<noteq> None \<or> key = ''__proto__'' \<or> key \<in> set (method_names v))"

definition get_property :: "jsval \<Rightarrow> string \<Rightarrow> jsval" where
  "get_property v key =
     (case data_member v key of
        Some x \<Rightarrow> x
      | None \<Rightarrow>
          if key = ''__proto__'' then prototype_of v
          else if key \<in> set (method_names v) then Function
          else Undefined)"

text \<open>
  \<open>parseFloat\<close> converts its argument to a string and reads the longest numeric prefix.
  The conversion throws a \<open>TypeError\<close> for a parsed object that has a member \<open>toString\<close>
  of its own (which is never a function), and for an array that holds such an object at
  any depth; every other value can be printed.
\<close>

fun printable :: "json \<Rightarrow> bool" where
  "printable (JObj kvs) = (map_of kvs ''toString'' = None)"
| "printable (JArr xs) = list_all printable xs"
| "printable v = True"

text \<open>
  On strings \<open>parseFloat\<close> is the engine's (\<open>pf\<close>). A number prints and reads back as
  itself, negative zero as zero. An array prints its elements separated by commas, \<open>null\<close>
  as the empty string, and a comma ends a numeric prefix, so an array reads as its first
  element. Every other value prints as text with no numeric prefix.
\<close>

fun read_prefix :: "(string \<Rightarrow> jsnum) \<Rightarrow> json \<Rightarrow> jsnum" where
  "read_prefix pf (JNum n) = (if n = NegZero then Fin 0 else n)"
| "read_prefix pf (JStr s) = pf s"
| "read_prefix pf (JArr []) = NaN"
| "read_prefix pf (JArr (x # xs)) = read_prefix pf x"
| "read_prefix pf JNull = NaN"
| "read_prefix pf (JBool b) = NaN"
| "read_prefix pf (JObj kvs) = NaN"

text \<open>\<open>parseFloat pf v\<close> is \<open>None\<close> when the call throws.\<close>

fun parseFloat :: "(string \<Rightarrow> jsnum) \<Rightarrow> jsval \<Rightarrow> jsnum option" where
  "parseFloat pf (Data j) = (if printable j then Some (read_prefix pf j) else None)"
| "parseFloat pf v = Some NaN"

subsection \<open>Strings\<close>

text \<open>\<open>includes_str s pat\<close> is \<open>s.includes(pat)\<close>; \<open>split_str s sep\<close> is \<open>s.split(sep)\<close> for a
  non-empty separator.\<close>

fun includes_str :: "string \<Rightarrow> string \<Rightarrow> bool" where
  "includes_str [] pat = (pat = [])"
| "includes_str (c # cs) pat = (prefix pat (c # cs) \<or> includes_str cs pat)"

function split_from :: "string \<Rightarrow> string \<Rightarrow> string \<Rightarrow> string list" where
  "split_from sep piece [] = [piece]"
| "split_from sep piece (c # cs) =
     (if sep \<noteq> [] \<and> prefix sep (c # cs)
      then piece # split_from sep [] (drop (length sep) (c # cs))
      else split_from sep (piece @ [c]) cs)"
  by pat_completeness auto
termination
  by (relation "measure (\<lambda>(sep, piece, rest). length rest)") auto

definition split_str :: "string \<Rightarrow> string \<Rightarrow> string list" where
  "split_str s sep = split_from sep [] s"

text \<open>
  \<open>s.replace(pat, repl)\<close> for strings: the first occurrence of \<open>pat\<close> is replaced, and
  in \<open>repl\<close> the patterns \<open>$$\<close>, \<open>$&\<close>, \<open>$`\<close> and \<open>$'\<close> stand for a dollar sign, the
  match, the text before it and the text after it.
\<close>

fun find_first :: "string \<Rightarrow> string \<Rightarrow> string \<Rightarrow> (string \<times> string) option" where
  "find_first pat pre [] = (if pat = [] then Some (pre, []) else None)"
| "find_first pat pre (c # cs) =
     (if prefix pat (c # cs) then Some (pre, drop (length pat) (c # cs))
      else find_first pat (pre @ [c]) cs)"

fun substitution :: "string \<Rightarrow> string \<Rightarrow> string \<Rightarrow> string \<Rightarrow> string" where
  "substitution matched pre post [] = []"
| "substitution matched pre post [c] = [c]"
| "substitution matched pre post (c # d # cs) =
     (if c = CHR ''$'' \<and> d = CHR ''$'' then CHR ''$'' # substitution matched pre post cs
      else if c = CHR ''$'' \<and> d = CHR ''&'' then matched @ substitution matched pre post cs
      else if c = CHR ''$'' \<and> d = CHR 0x60 then pre @ substitution matched pre post cs
      else if c = CHR ''$'' \<and> d = CHR 0x27 then post @ substitution matched pre post cs
      else c # substitution matched pre post (d # cs))"

definition replace :: "string \<Rightarrow> string \<Rightarrow> string \<Rightarrow> string" where
  "replace s pat repl =
     (case find_first pat [] s of
        None \<Rightarrow> s
      | Some (pre, post) \<Rightarrow> pre @ substitution pat pre post repl @ post)"

subsection \<open>Plain objects used as tables\<close>

text \<open>
  \<open>obj[key]\<close> on a plain object finds a member of its own, or else a member inherited
  from \<open>Object.prototype\<close> (a function, or for \<open>__proto__\<close> the prototype itself: truthy
  either way), or else \<open>undefined\<close>.
\<close>

datatype 'a member = Absent | Own 'a | Inherited

definition lookup_member :: "(string \<times> 'a) list \<Rightarrow> string \<Rightarrow> 'a member" where
  "lookup_member obj key =
     (case map_of obj key of
        Some x \<Rightarrow> Own x
      | None \<Rightarrow> if key = ''__proto__'' \<or> key \<in> set object_methods then Inherited else Absent)"

subsection \<open>Data model\<close>

text \<open>
  The three documents are typed as the application reads them: \<open>data/apis.json\<close> holds
  endpoint configurations, \<open>data/daily-prices.json\<close> the historical series, and
  \<open>data/recipients.json\<close> an object of recipient records.
\<close>

record endpoint =
  name :: string
  url :: string
  price_path :: string
  time_path :: string
  authentication :: string
  priority :: int
  description :: string
  rate_conversion :: "string option"

record price_entry =
  entry_date :: string
  entry_price :: jsnum
  entry_source :: "string option"

record recipient =
  recipientName :: string
  giverName :: string
  giftDate :: string
  initialPrice :: jsnum
  silverAmount :: jsnum

text \<open>A price sample; \<open>isLastKnown = None\<close> when the object has no such member.\<close>

record sample =
  price :: jsnum
  source :: string
  timestamp :: string
  isLive :: bool
  isLastKnown :: "bool option"
  reliable :: bool

text \<open>A document that should be an array: \<open>Array.isArray\<close> tells the two apart.\<close>

datatype 'a array_doc = NotArray | Arr "'a list"

subsection \<open>The environment\<close>

text \<open>
  Effects are recorded in a trace: the endpoint that \<open>tryAllLiveAPIs\<close> turns to, every
  \<open>fetch\<close> with its URL, and every delay awaited through \<open>setTimeout\<close>, in milliseconds.
  A \<open>fetch\<close> settles in one of four ways: the promise rejects (network error, or the abort
  after \<open>apiTimeout\<close>), the status is not ok, the body is not JSON, or the body parses;
  a parsed body \<open>None\<close> in a data file is JSON \<open>null\<close>. Every request is taken to
  settle. What a request meets may depend on everything that happened before it, so the
  servers are functions of the trace, which ends with the request itself.
\<close>

datatype event = Trying endpoint | Fetch string | Sleep nat

type_synonym trace = "event list"

datatype 'a response = Rejected | Status nat | Unparsable | Parsed 'a

record env =
  query :: "(string \<times> string) list"
  parse_number :: "string \<Rightarrow> jsnum"
  js_divide :: "jsnum \<Rightarrow> jsnum \<Rightarrow> jsnum"
  now_iso :: "trace \<Rightarrow> string"
  api_server :: "trace \<Rightarrow> json response"
  apis_json :: "trace \<Rightarrow> endpoint array_doc option response"
  daily_prices_json :: "trace \<Rightarrow> price_entry array_doc option response"
  recipients_json :: "trace \<Rightarrow> (string \<times> recipient) list option response"

text \<open>
  \<open>query\<close> lists the parameters of \<open>window.location.search\<close> in order:
  \<open>URLSearchParams.has\<close> looks for the name, \<open>get\<close> returns the first value or \<open>null\<close>.
\<close>

definition params_has :: "(string \<times> string) list \<Rightarrow> string \<Rightarrow> bool" where
  "params_has q k = (map_of q k \<noteq> None)"

definition params_get :: "(string \<times> string) list \<Rightarrow> string \<Rightarrow> string option" where
  "params_get q k = map_of q k"

subsection \<open>DataManager\<close>

definition maxRetries :: nat where "maxRetries = 3"
definition retryDelay :: nat where "retryDelay = 500"

function loadAttempts ::
  "(trace \<Rightarrow> 'a option response) \<Rightarrow> string \<Rightarrow> 'a option \<Rightarrow> nat \<Rightarrow> nat \<Rightarrow> trace
     \<Rightarrow> 'a option \<times> trace" where
  "loadAttempts server u fallback retries attempt tr =
     (if attempt \<le> retries then
        (let tr1 = tr @ [Fetch u] in
         case server tr1 of
           Parsed (Some d) \<Rightarrow> (Some d, tr1)
         | _ \<Rightarrow>
             if attempt = retries then (fallback, tr1)
             else loadAttempts server u fallback retries (attempt + 1)
                    (tr1 @ [Sleep (retryDelay * attempt)]))
      else (fallback, tr))"
  by pat_completeness auto
termination
  by (relation "measure (\<lambda>(server, u, fallback, retries, attempt, tr). Suc retries - attempt)") auto

declare loadAttempts.simps [simp del]

definition loadWithFallback ::
  "(trace \<Rightarrow> 'a option response) \<Rightarrow> string \<Rightarrow> 'a option \<Rightarrow> nat \<Rightarrow> trace
     \<Rightarrow> 'a option \<times> trace" where
  "loadWithFallback server u fallback retries tr = loadAttempts server u fallback retries 1 tr"

text \<open>
  \<open>loadAppData\<close> starts both loads at once and waits for both (\<open>Promise.allSettled\<close>);
  neither rejects. The model runs the two one after the other.
\<close>

definition loadAppData ::
  "env \<Rightarrow> trace
     \<Rightarrow> ((string \<times> recipient) list option \<times> price_entry array_doc option) \<times> trace" where
  "loadAppData e tr =
     (let (recipients, tr1) =
            loadWithFallback (recipients_json e) ''data/recipients.json'' (Some []) maxRetries tr;
          (priceData, tr2) =
            loadWithFallback (daily_prices_json e) ''data/daily-prices.json'' (Some (Arr []))
              maxRetries tr1
      in ((recipients, priceData), tr2))"

definition getLastKnownPrice :: "env \<Rightarrow> trace \<Rightarrow> sample option \<times> trace" where
  "getLastKnownPrice e tr =
     (let (dailyPrices, tr1) =
            loadWithFallback (daily_prices_json e) ''data/daily-prices.json'' (Some (Arr [])) 2 tr
      in case dailyPrices of
           Some (Arr (x # xs)) \<Rightarrow>
             (let lastEntry = last (x # xs) in
              (Some \<lparr> price = entry_price lastEntry,
                      source = (case entry_source lastEntry of
                                  None \<Rightarrow> ''historical''
                                | Some src \<Rightarrow> if src = [] then ''historical'' else src),
                      timestamp = entry_date lastEntry @ ''T12:00:00Z'',
                      isLive = False,
                      isLastKnown = Some True,
                      reliable = False \<rparr>, tr1))
         | _ \<Rightarrow> (None, tr1))"

subsection \<open>APIManager\<close>

definition isAPIAvailable :: "env \<Rightarrow> endpoint \<Rightarrow> bool" where
  "isAPIAvailable e api =
     (if authentication api = ''none'' then True
      else params_has (query e) (authentication api))"

definition getFallbackAPIConfig :: "endpoint list" where
  "getFallbackAPIConfig =
     [\<lparr> name = ''gold-api'',
        url = ''https://api.gold-api.com/price/XAG'',
        price_path = ''price'',
        time_path = ''updatedAt'',
        authentication = ''none'',
        priority = 1,
        description = ''Fallback API configuration'',
        rate_conversion = None \<rparr>]"

text \<open>
  \<open>Array.prototype.sort\<close> is stable, and so is \<open>sort_key\<close>: with the comparator
  \<open>a.priority - b.priority\<close> on integers both give the same list.
\<close>

definition loadAPIConfig :: "env \<Rightarrow> trace \<Rightarrow> endpoint list \<times> trace" where
  "loadAPIConfig e tr =
     (let (config, tr1) = loadWithFallback (apis_json e) ''data/apis.json'' None 2 tr
      in case config of
           Some (Arr cfg) \<Rightarrow>
             (let availableAPIs = filter (isAPIAvailable e) (sort_key priority cfg)
              in (if availableAPIs \<noteq> [] then availableAPIs else getFallbackAPIConfig, tr1))
         | _ \<Rightarrow> (getFallbackAPIConfig, tr1))"

text \<open>\<open>buildAPIUrl\<close> throws when the key is missing or empty: \<open>None\<close>.\<close>

definition buildAPIUrl :: "env \<Rightarrow> endpoint \<Rightarrow> string option" where
  "buildAPIUrl e api =
     (if authentication api \<noteq> ''none'' then
        (case params_get (query e) (authentication api) of
           None \<Rightarrow> None
         | Some apiKey \<Rightarrow>
             if apiKey = [] then None
             else Some (replace (url api) (''{'' @ authentication api @ ''}'') apiKey))
      else Some (url api))"

definition complexPaths :: "(string \<times> string list) list" where
  "complexPaths =
     [(''Global Quote.05. price'', [''Global Quote'', ''05. price'']),
      (''Global Quote.07. latest trading day'', [''Global Quote'', ''07. latest trading day'']),
      (''rates.XAG'', [''rates'', ''XAG'']),
      (''rates.USDXAG'', [''rates'', ''USDXAG''])]"

text \<open>
  \<open>parseJSONPath\<close> returns a list of keys, or, for a path string that names an inherited
  member of the table \<open>complexPaths\<close>, that member, which cannot be iterated.
\<close>

datatype path = Keys "string list" | NotIterable

definition parseJSONPath :: "string \<Rightarrow> path" where
  "parseJSONPath pathString =
     (case lookup_member complexPaths pathString of
        Own keys \<Rightarrow> Keys keys
      | Inherited \<Rightarrow> NotIterable
      | Absent \<Rightarrow>
          if includes_str pathString ''Global Quote''
               \<and> length (split_str pathString ''Global Quote.'') = 2
          then Keys [''Global Quote'', split_str pathString ''Global Quote.'' ! 1]
          else Keys (split_str pathString ''.''))"

text \<open>The loop of \<open>extractPrice\<close> over the keys; \<open>None\<close> is its \<open>return null\<close>.\<close>

fun walk :: "jsval \<Rightarrow> string list \<Rightarrow> jsval option" where
  "walk v [] = Some v"
| "walk v (key # keys) =
     (if truthy v \<and> typeof v = ''object'' \<and> has_property v key
      then walk (get_property v key) keys
      else None)"

text \<open>
  In \<open>extractPrice\<close> the \<open>for ... of\<close> over a value that is not iterable throws, as
  \<open>parseFloat\<close> may, and the \<open>catch\<close> returns \<open>null\<close>.
\<close>

definition extractPrice :: "env \<Rightarrow> json \<Rightarrow> endpoint \<Rightarrow> jsnum option" where
  "extractPrice e data api =
     (case parseJSONPath (price_path api) of
        NotIterable \<Rightarrow> None
      | Keys keys \<Rightarrow>
          (case walk (Data data) keys of
             None \<Rightarrow> None
           | Some v \<Rightarrow>
               (case parseFloat (parse_number e) v of
                  None \<Rightarrow> None
                | Some p \<Rightarrow>
                    if isNaN p then None
                    else if rate_conversion api = Some ''invert''
                    then Some (js_divide e (Fin 1) p)
                    else Some p)))"

definition maxAttempts :: nat where "maxAttempts = 3"

text \<open>
  One pass through the \<open>try\<close> block of \<open>tryIndividualAPI\<close>: \<open>None\<close> when it throws.
\<close>

definition attemptAPI :: "env \<Rightarrow> endpoint \<Rightarrow> trace \<Rightarrow> sample option \<times> trace" where
  "attemptAPI e api tr =
     (case buildAPIUrl e api of
        None \<Rightarrow> (None, tr)
      | Some u \<Rightarrow>
          (let tr1 = tr @ [Fetch u] in
           case api_server e tr1 of
             Parsed data \<Rightarrow>
               (case extractPrice e data api of
                  None \<Rightarrow> (None, tr1)
                | Some p \<Rightarrow>
                    if num_truthy p \<and> num_ge p 10 \<and> num_le p 200
                    then (Some \<lparr> price = p,
                                 source = name api,
                                 timestamp = now_iso e tr1,
                                 isLive = True,
                                 isLastKnown = None,
                                 reliable = True \<rparr>, tr1)
                    else (None, tr1))
           | _ \<Rightarrow> (None, tr1)))"

function tryAttempts :: "env \<Rightarrow> endpoint \<Rightarrow> nat \<Rightarrow> trace \<Rightarrow> sample option \<times> trace" where
  "tryAttempts e api attempt tr =
     (if attempt \<le> maxAttempts then
        (case attemptAPI e api tr of
           (Some result, tr1) \<Rightarrow> (Some result, tr1)
         | (None, tr1) \<Rightarrow>
             tryAttempts e api (attempt + 1)
               (if attempt < maxAttempts then tr1 @ [Sleep (500 * attempt)] else tr1))
      else (None, tr))"
  by pat_completeness auto
termination
  by (relation "measure (\<lambda>(e, api, attempt, tr). Suc maxAttempts - attempt)") auto

declare tryAttempts.simps [simp del]

definition tryIndividualAPI :: "env \<Rightarrow> endpoint \<Rightarrow> trace \<Rightarrow> sample option \<times> trace" where
  "tryIndividualAPI e api tr = tryAttempts e api 1 tr"

text \<open>The loop of \<open>tryAllLiveAPIs\<close> over the configurations.\<close>

fun tryConfigs :: "env \<Rightarrow> endpoint list \<Rightarrow> trace \<Rightarrow> sample option \<times> trace" where
  "tryConfigs e [] tr = (None, tr)"
| "tryConfigs e (api # rest) tr =
     (case tryIndividualAPI e api (tr @ [Trying api]) of
        (Some result, tr1) \<Rightarrow> (Some result, tr1)
      | (None, tr1) \<Rightarrow>
          tryConfigs e rest (if rest \<noteq> [] then tr1 @ [Sleep 1000] else tr1))"

definition tryAllLiveAPIs :: "env \<Rightarrow> trace \<Rightarrow> sample option \<times> trace" where
  "tryAllLiveAPIs e tr =
     (let (apiConfigs, tr1) = loadAPIConfig e tr in tryConfigs e apiConfigs tr1)"

definition getCurrentPrice :: "env \<Rightarrow> trace \<Rightarrow> sample option \<times> trace" where
  "getCurrentPrice e tr =
     (case tryAllLiveAPIs e tr of
        (Some livePrice, tr1) \<Rightarrow> (Some livePrice, tr1)
      | (None, tr1) \<Rightarrow> getLastKnownPrice e tr1)"

subsection \<open>UIRenderer and the application\<close>

text \<open>
  Of the page that \<open>createGiftContent\<close> builds, the model keeps whether a price is shown
  and, if so, its label and its style class.
\<close>

datatype gift_content = PriceUnavailable | PriceShown string string

definition createGiftContent :: "sample option \<Rightarrow> gift_content" where
  "createGiftContent currentPriceData =
     (case currentPriceData of
        None \<Rightarrow> PriceUnavailable
      | Some d \<Rightarrow>
          if \<not> num_truthy (price d) then PriceUnavailable
          else PriceShown
                 (if isLastKnown d = Some True then ''Last known value'' else ''Current value'')
                 (if isLastKnown d = Some True then ''price last-known'' else ''price''))"

text \<open>
  What the page shows in the end: the recipient selector with the map it was given, the
  gift page with the arguments of \<open>renderGiftPage\<close>, or the error view with its message.
\<close>

datatype view =
    RecipientSelector "(string \<times> recipient) list"
  | GiftPage "recipient member" "price_entry array_doc option" "sample option"
  | ErrorView string

definition getRecipientFromUrl :: "env \<Rightarrow> string option" where
  "getRecipientFromUrl e = params_get (query e) ''recipient''"

text \<open>
  \<open>loadAndRender\<close> throws (\<open>Inl\<close>) only if the recipient map is \<open>null\<close>, when reading a
  member of it or listing its keys is a \<open>TypeError\<close>.
\<close>

definition loadAndRender :: "env \<Rightarrow> trace \<Rightarrow> (string + view) \<times> trace" where
  "loadAndRender e tr =
     (let recipientId = getRecipientFromUrl e;
          ((loaded, dailyPrices), tr1) = loadAppData e tr
      in case loaded of
           None \<Rightarrow> (Inl ''TypeError'', tr1)
         | Some recipients \<Rightarrow>
             (case recipientId of
                None \<Rightarrow> (Inr (RecipientSelector recipients), tr1)
              | Some rid \<Rightarrow>
                  if rid = [] \<or> lookup_member recipients rid = Absent
                  then (Inr (RecipientSelector recipients), tr1)
                  else
                    (let (currentPriceData, tr2) = getCurrentPrice e tr1
                     in (Inr (GiftPage (lookup_member recipients rid) dailyPrices
                                currentPriceData), tr2))))"

definition init :: "env \<Rightarrow> view \<times> trace" where
  "init e =
     (case loadAndRender e [] of
        (Inl err, tr) \<Rightarrow>
          (ErrorView ''Failed to load the application. Please refresh the page.'', tr)
      | (Inr v, tr) \<Rightarrow> (v, tr))"

subsection \<open>Reading a trace\<close>

text \<open>
  The endpoints that \<open>tryAllLiveAPIs\<close> turned to, the delays awaited and the URLs
  fetched, each in the order of the trace.
\<close>

fun attempted :: "trace \<Rightarrow> endpoint list" where
  "attempted [] = []"
| "attempted (Trying api # tr) = api # attempted tr"
| "attempted (Fetch u # tr) = attempted tr"
| "attempted (Sleep n # tr) = attempted tr"

fun delays :: "trace \<Rightarrow> nat list" where
  "delays [] = []"
| "delays (Sleep n # tr) = n # delays tr"
| "delays (Trying api # tr) = delays tr"
| "delays (Fetch u # tr) = delays tr"

fun fetches :: "trace \<Rightarrow> string list" where
  "fetches [] = []"
| "fetches (Fetch u # tr) = u # fetches tr"
| "fetches (Trying api # tr) = fetches tr"
| "fetches (Sleep n # tr) = fetches tr"

text \<open>\<open>num_lt p c\<close> is \<open>p < c\<close> and \<open>num_gt p c\<close> is \<open>p > c\<close>, for a finite constant.\<close>

fun num_lt :: "jsnum \<Rightarrow> real \<Rightarrow> bool" where
  "num_lt NaN c = False"
| "num_lt NegInf c = True"
| "num_lt NegZero c = (0 < c)"
| "num_lt (Fin r) c = (r < c)"
| "num_lt PosInf c = False"

fun num_gt :: "jsnum \<Rightarrow> real \<Rightarrow> bool" where
  "num_gt NaN c = False"
| "num_gt NegInf c = False"
| "num_gt NegZero c = (0 > c)"
| "num_gt (Fin r) c = (r > c)"
| "num_gt PosInf c = True"

subsection \<open>Example environments\<close>

text \<open>
  Concrete environments on which the properties below are exercised. The engine's number
  parser and its division are given on the arguments that occur in the examples. Two
  endpoints are configured, \<open>ep_metals\<close> (priority 1, needs the key \<open>METALS_KEY\<close>, quotes
  ounces per dollar) and \<open>ep_gold\<close> (priority 2, no key); \<open>ep_odd\<close> keeps its price under
  the key \<open>valueOf\<close>.
  \<^item> \<open>env_silent\<close>: the key is in the query string and every price request is rejected;
  \<^item> \<open>env_no_key\<close>: the page of recipient \<open>john\<close>, without the key;
  \<^item> \<open>env_high\<close>: the price server answers 250;
  \<^item> \<open>env_rate\<close>: the price server answers the rate 0.03125, that is 32 dollars per ounce;
  \<^item> \<open>env_history\<close>: no live price, and a historical series of two entries;
  \<^item> \<open>env_zero\<close>: no live price, and a historical series that ends with the price 0;
  \<^item> \<open>env_toString\<close>: the page of the recipient identifier \<open>toString\<close>.
\<close>

definition example_parse_number :: "string \<Rightarrow> jsnum" where
  "example_parse_number s = (if s = ''31.25'' then Fin 31.25 else NaN)"

definition example_divide :: "jsnum \<Rightarrow> jsnum \<Rightarrow> jsnum" where
  "example_divide a b = (if a = Fin 1 \<and> b = Fin 0.03125 then Fin 32 else NaN)"

definition example_env ::
  "(string \<times> string) list \<Rightarrow> (trace \<Rightarrow> json response) \<Rightarrow> endpoint array_doc option response
     \<Rightarrow> price_entry array_doc option response \<Rightarrow> (string \<times> recipient) list option response
     \<Rightarrow> env" where
  "example_env q api cfg prices recips =
     \<lparr> query = q,
       parse_number = example_parse_number,
       js_divide = example_divide,
       now_iso = (\<lambda>tr. ''2025-11-02T09:30:00.000Z''),
       api_server = api,
       apis_json = (\<lambda>tr. cfg),
       daily_prices_json = (\<lambda>tr. prices),
       recipients_json = (\<lambda>tr. recips) \<rparr>"

definition ep_metals :: endpoint where
  "ep_metals =
     \<lparr> name = ''metals'',
       url = ''https://metals.example/latest?access_key={METALS_KEY}'',
       price_path = ''rates.XAG'',
       time_path = ''timestamp'',
       authentication = ''METALS_KEY'',
       priority = 1,
       description = ''ounces of silver per dollar'',
       rate_conversion = Some ''invert'' \<rparr>"

definition ep_gold :: endpoint where
  "ep_gold =
     \<lparr> name = ''gold-api'',
       url = ''https://api.gold-api.com/price/XAG'',
       price_path = ''price'',
       time_path = ''updatedAt'',
       authentication = ''none'',
       priority = 2,
       description = ''dollars per ounce'',
       rate_conversion = None \<rparr>"

definition env_silent :: env where
  "env_silent = example_env [(''METALS_KEY'', ''k1'')] (\<lambda>tr. Rejected)
            (Parsed (Some (Arr [ep_gold, ep_metals]))) Rejected Rejected"

definition john :: recipient where
  "john = \<lparr> recipientName = ''John'', giverName = ''Grandad'', giftDate = ''2024-12-25'',
             initialPrice = Fin 29.5, silverAmount = Fin 1 \<rparr>"

definition env_no_key :: env where
  "env_no_key = example_env [(''recipient'', ''john'')] (\<lambda>tr. Rejected)
            (Parsed (Some (Arr [ep_gold, ep_metals]))) Rejected (Parsed (Some [(''john'', john)]))"

definition env_high :: env where
  "env_high = example_env [] (\<lambda>tr. Parsed (JObj [(''price'', JNum (Fin 250))]))
            Rejected Rejected Rejected"

definition env_rate :: env where
  "env_rate = example_env [(''METALS_KEY'', ''k1'')]
            (\<lambda>tr. Parsed (JObj [(''rates'', JObj [(''XAG'', JNum (Fin 0.03125))])]))
            (Parsed (Some (Arr [ep_gold, ep_metals]))) Rejected Rejected"

definition sample_rate :: sample where
  "sample_rate = \<lparr> price = Fin 32, source = ''metals'', timestamp = ''2025-11-02T09:30:00.000Z'',
                isLive = True, isLastKnown = None, reliable = True \<rparr>"

definition entry1 :: price_entry where
  "entry1 = \<lparr> entry_date = ''2025-10-30'', entry_price = Fin 30.5, entry_source = Some ''gold-api'' \<rparr>"

definition entry2 :: price_entry where
  "entry2 = \<lparr> entry_date = ''2025-10-31'', entry_price = Fin 30.75, entry_source = None \<rparr>"

definition env_history :: env where
  "env_history = example_env [] (\<lambda>tr. Rejected) Rejected (Parsed (Some (Arr [entry1, entry2]))) Rejected"

definition entry_zero :: price_entry where
  "entry_zero = \<lparr> entry_date = ''2025-10-31'', entry_price = Fin 0, entry_source = None \<rparr>"

definition env_zero :: env where
  "env_zero = example_env [] (\<lambda>tr. Rejected) Rejected (Parsed (Some (Arr [entry1, entry_zero]))) Rejected"

definition env_toString :: env where
  "env_toString = example_env [(''recipient'', ''toString'')]
            (\<lambda>tr. Parsed (JObj [(''price'', JStr ''31.25'')]))
            Rejected Rejected (Parsed (Some [(''john'', john)]))"

definition ep_odd :: endpoint where
  "ep_odd =
     \<lparr> name = ''odd'',
       url = ''https://prices.example/silver'',
       price_path = ''valueOf'',
       time_path = ''at'',
       authentication = ''none'',
       priority = 3,
       description = ''a price under the key valueOf'',
       rate_conversion = None \<rparr>"

section \<open>Properties\<close>

subsection \<open>Traces of the loops\<close>

lemma attempted_append: "attempted (xs @ ys) = attempted xs @ attempted ys"
  by (induction xs rule: attempted.induct) auto

lemma delays_append: "delays (xs @ ys) = delays xs @ delays ys"
  by (induction xs rule: delays.induct) auto

lemma fetches_append: "fetches (xs @ ys) = fetches xs @ fetches ys"
  by (induction xs rule: fetches.induct) auto

lemma loadAttempts_trace:
  "\<exists>new. snd (loadAttempts server u fb retries attempt tr) = tr @ new \<and> attempted new = []"
proof (induction "Suc retries - attempt" arbitrary: attempt tr)
  case 0
  then have "\<not> attempt \<le> retries" by simp
  then show ?case by (simp add: loadAttempts.simps)
next
  case (Suc n)
  then have le: "attempt \<le> retries" by simp
  from Suc have n: "n = Suc retries - (attempt + 1)" by simp
  obtain new where new:
    "snd (loadAttempts server u fb retries (attempt + 1)
            ((tr @ [Fetch u]) @ [Sleep (retryDelay * attempt)])) =
       ((tr @ [Fetch u]) @ [Sleep (retryDelay * attempt)]) @ new"
    "attempted new = []"
    using Suc.hyps(1)[OF n] by blast
  show ?case
    using le new
    by (subst loadAttempts.simps)
       (auto simp: Let_def attempted_append split: response.splits option.splits)
qed

lemma loadWithFallback_trace:
  "\<exists>new. snd (loadWithFallback server u fb retries tr) = tr @ new \<and> attempted new = []"
  unfolding loadWithFallback_def by (rule loadAttempts_trace)

lemma attemptAPI_trace:
  "\<exists>new. snd (attemptAPI e api tr) = tr @ new \<and> attempted new = [] \<and> delays new = []
         \<and> length (fetches new) \<le> 1"
  by (auto simp: attemptAPI_def Let_def split: option.splits response.splits)

lemma attemptAPI_sample:
  assumes "attemptAPI e api tr = (Some s, tr')"
  shows "isLive s \<and> reliable s \<and> isLastKnown s = None \<and> source s = name api
         \<and> (\<exists>r. price s = Fin r \<and> 10 \<le> r \<and> r \<le> 200)"
proof -
  have band: "\<exists>r. p = Fin r \<and> 10 \<le> r \<and> r \<le> 200" if "num_ge p 10" "num_le p 200" for p
    using that by (cases p) auto
  show ?thesis
    using assms band
    by (auto simp: attemptAPI_def Let_def split: option.splits response.splits if_splits)
qed


lemma tryAttempts_done: "\<not> attempt \<le> maxAttempts \<Longrightarrow> tryAttempts e api attempt tr = (None, tr)"
  by (simp add: tryAttempts.simps)

lemma tryAttempts_success:
  "attempt \<le> maxAttempts \<Longrightarrow> attemptAPI e api tr = (Some s, tr1)
     \<Longrightarrow> tryAttempts e api attempt tr = (Some s, tr1)"
  by (subst tryAttempts.simps) simp

lemma tryAttempts_retry:
  "attempt < maxAttempts \<Longrightarrow> attemptAPI e api tr = (None, tr1)
     \<Longrightarrow> tryAttempts e api attempt tr
         = tryAttempts e api (attempt + 1) (tr1 @ [Sleep (500 * attempt)])"
  by (subst tryAttempts.simps) simp

lemma tryAttempts_last:
  "attempt = maxAttempts \<Longrightarrow> attemptAPI e api tr = (None, tr1)
     \<Longrightarrow> tryAttempts e api attempt tr = (None, tr1)"
  by (subst tryAttempts.simps) (simp add: tryAttempts_done)

lemma tryAttempts_sample:
  "tryAttempts e api attempt tr = (Some s, tr')
     \<Longrightarrow> isLive s \<and> reliable s \<and> isLastKnown s = None \<and> source s = name api
         \<and> (\<exists>r. price s = Fin r \<and> 10 \<le> r \<and> r \<le> 200)"
proof (induction "Suc maxAttempts - attempt" arbitrary: attempt tr)
  case 0
  then have "\<not> attempt \<le> maxAttempts" by simp
  with 0 show ?case by (simp add: tryAttempts_done)
next
  case (Suc n)
  then have le: "attempt \<le> maxAttempts" by simp
  obtain res tr1 where a: "attemptAPI e api tr = (res, tr1)" by (cases "attemptAPI e api tr")
  show ?case
  proof (cases res)
    case (Some s1)
    with a le Suc.prems have "s1 = s" by (simp add: tryAttempts_success)
    with a Some show ?thesis using attemptAPI_sample by blast
  next
    case None
    show ?thesis
    proof (cases "attempt = maxAttempts")
      case True
      with a None Suc.prems show ?thesis by (simp add: tryAttempts_last)
    next
      case False
      with le have lt: "attempt < maxAttempts" by simp
      from Suc.hyps(2) have n: "n = Suc maxAttempts - (attempt + 1)" by simp
      from a None lt Suc.prems
      have "tryAttempts e api (attempt + 1) (tr1 @ [Sleep (500 * attempt)]) = (Some s, tr')"
        by (simp add: tryAttempts_retry)
      from Suc.hyps(1)[OF n this] show ?thesis .
    qed
  qed
qed

lemma tryAttempts_trace:
  assumes "attempt \<le> maxAttempts"
  shows "\<exists>new k. attempt \<le> k \<and> k \<le> maxAttempts
           \<and> snd (tryAttempts e api attempt tr) = tr @ new
           \<and> attempted new = []
           \<and> delays new = map (\<lambda>j. 500 * j) [attempt..<k]
           \<and> length (fetches new) \<le> Suc k - attempt
           \<and> (fst (tryAttempts e api attempt tr) = None \<longrightarrow> k = maxAttempts)"
  using assms
proof (induction "Suc maxAttempts - attempt" arbitrary: attempt tr)
  case 0
  then show ?case by simp
next
  case (Suc n)
  note le = \<open>attempt \<le> maxAttempts\<close>
  obtain res tr1 where a: "attemptAPI e api tr = (res, tr1)" by (cases "attemptAPI e api tr")
  obtain n1 where n1: "tr1 = tr @ n1" "attempted n1 = []" "delays n1 = []" "length (fetches n1) \<le> 1"
    using attemptAPI_trace[of e api tr] a by auto
  show ?case
  proof (cases res)
    case (Some s1)
    with a le have "tryAttempts e api attempt tr = (Some s1, tr1)"
      by (simp add: tryAttempts_success)
    with n1 le show ?thesis
      by (intro exI[of _ n1] exI[of _ attempt]) simp
  next
    case None
    show ?thesis
    proof (cases "attempt = maxAttempts")
      case True
      with a None have "tryAttempts e api attempt tr = (None, tr1)"
        by (simp add: tryAttempts_last)
      with n1 True show ?thesis
        by (intro exI[of _ n1] exI[of _ attempt]) simp
    next
      case False
      with le have lt: "attempt < maxAttempts" by simp
      then have le': "attempt + 1 \<le> maxAttempts" by simp
      from Suc.hyps(2) have n: "n = Suc maxAttempts - (attempt + 1)" by simp
      let ?tr2 = "tr1 @ [Sleep (500 * attempt)]"
      have eq: "tryAttempts e api attempt tr = tryAttempts e api (attempt + 1) ?tr2"
        using a None lt by (simp add: tryAttempts_retry)
      from Suc.hyps(1)[OF n le', of ?tr2]
      obtain new k where H: "attempt + 1 \<le> k \<and> k \<le> maxAttempts
          \<and> snd (tryAttempts e api (attempt + 1) ?tr2) = ?tr2 @ new
          \<and> attempted new = []
          \<and> delays new = map (\<lambda>j. 500 * j) [attempt + 1..<k]
          \<and> length (fetches new) \<le> Suc k - (attempt + 1)
          \<and> (fst (tryAttempts e api (attempt + 1) ?tr2) = None \<longrightarrow> k = maxAttempts)"
        by (elim exE) (erule that)
      then have k: "attempt + 1 \<le> k" by simp
      have upt: "[attempt..<k] = attempt # [attempt + 1..<k]"
        using k by (simp add: upt_conv_Cons)
      show ?thesis
        apply (rule exI[of _ "n1 @ [Sleep (500 * attempt)] @ new"])
        apply (rule exI[of _ k])
        using H n1 
        apply (simp only: eq upt)
        apply (simp add: attempted_append delays_append fetches_append)
        apply (elim conjE)
        apply linarith
        done
    qed
  qed
qed

subsection \<open>Utils\<close>

lemma string_of_nat_1: "string_of_nat (Suc 0) = ''1''"
  by (simp add: string_of_nat.simps digit_char_def)

text \<open>
  C5. A gift date whose time value lies 365 whole days before the current instant is
  described as "1 year ago": the whole-day difference is 365, so \<open>years = 1\<close> and
  \<open>remainingDays = 0\<close>.
\<close>

theorem getTimeDifference_one_year:
  assumes "parse gift_text = Some gift"
    and "gift \<le> today"
    and "(today - gift) div ms_per_day = 365"
  shows "getTimeDifference parse today gift_text = ''1 year ago''"
  using assms by (simp add: getTimeDifference_def Let_def string_of_nat_1)

theorem getTimeDifference_one_year_witness:
  "getTimeDifference (\<lambda>s. if s = ''2024-11-02'' then Some 1730505600000 else None)
     (1730505600000 + 365 * ms_per_day + 5000) ''2024-11-02'' = ''1 year ago''"
  by (rule getTimeDifference_one_year [where gift = 1730505600000])
     (simp_all add: ms_per_day_def)

lemma string_of_nat_nonempty: "string_of_nat n \<noteq> []"
  by (subst string_of_nat.simps) simp

lemma ago_nonempty: "ago n u \<noteq> []"
  by (simp add: ago_def string_of_nat_nonempty)

lemma describe_elapsed_nonempty: "describe_elapsed d \<noteq> []"
  by (simp add: describe_elapsed_def ago_nonempty)

lemma floor_units:
  fixes d :: nat
  shows "nat (int d div (1000 * 60)) = d div 60000"
    and "nat (int d div (1000 * 60 * 60)) = d div 3600000"
    and "nat (int d div (1000 * 60 * 60 * 24)) = d div 86400000"
  by (simp_all add: nat_div_distrib)

lemma nested_units:
  fixes d :: nat
  shows "d div 86400000 div 7 = d div (7 * 86400000)"
    and "d div 86400000 div 30 = d div (30 * 86400000)"
    and "d div 86400000 div 365 = d div (365 * 86400000)"
  by (simp_all add: div_mult2_eq)

lemma thresholds:
  fixes d :: nat
  shows "d div 60000 < 1 \<longleftrightarrow> d < 60000"
    and "d div 60000 < 60 \<longleftrightarrow> d < 3600000"
    and "d div 3600000 < 24 \<longleftrightarrow> d < 86400000"
    and "d div 86400000 < 7 \<longleftrightarrow> d < 7 * 86400000"
    and "d div 86400000 < 30 \<longleftrightarrow> d < 30 * 86400000"
    and "d div 86400000 < 365 \<longleftrightarrow> d < 365 * 86400000"
  by (simp_all add: div_less_iff_less_mult div_eq_0_iff del: less_one)

lemma getTimeAgo_past:
  assumes "ts \<noteq> []" "parse ts = Some t" "t \<le> now"
  shows "getTimeAgo parse now (Some ts) = describe_elapsed (nat (now - t))"
proof -
  define d where "d = nat (now - t)"
  have nd: "now - t = int d" using assms by (simp add: d_def)
  have "getTimeAgo parse now (Some ts) = describe_elapsed d"
    unfolding getTimeAgo_def describe_elapsed_def Let_def
    using assms(1,2)
    by (simp only: nd option.case if_False floor_units nested_units thresholds ago_def
        of_nat_less_0_iff append_Cons append_Nil)
  then show ?thesis by (simp only: d_def)
qed

lemma getTimeAgo_future:
  assumes "ts \<noteq> []" "parse ts = Some t" "now < t"
  shows "getTimeAgo parse now (Some ts) = ''recently''"
  using assms by (simp add: getTimeAgo_def)

lemma getTimeAgo_nonempty: "getTimeAgo parse now stamp \<noteq> []"
proof (cases stamp)
  case None
  then show ?thesis by (simp add: getTimeAgo_def)
next
  case (Some ts)
  show ?thesis
  proof (cases "ts = []")
    case True
    with Some show ?thesis by (simp add: getTimeAgo_def)
  next
    case False
    show ?thesis
    proof (cases "parse ts")
      case None
      with Some False show ?thesis by (simp add: getTimeAgo_def)
    next
      case (Some t)
      show ?thesis
      proof (cases "t \<le> now")
        case True
        with \<open>stamp = Some ts\<close> False Some show ?thesis
          by (simp add: getTimeAgo_past describe_elapsed_nonempty)
      next
        case False
        with \<open>stamp = Some ts\<close> \<open>ts \<noteq> []\<close> Some show ?thesis
          by (simp add: getTimeAgo_future)
      qed
    qed
  qed
qed

text \<open>
  C10. \<open>getTimeAgo\<close> returns a non-empty string on every input; a missing (falsy)
  timestamp gives "unknown time", a timestamp after \<open>now\<close> gives "recently", and a
  timestamp at or before \<open>now\<close> gives the description of the first threshold, in the order
  minutes, hours, days, weeks, months, years, that the elapsed time stays below.
\<close>

theorem getTimeAgo_total:
  "getTimeAgo parse now stamp \<noteq> []
   \<and> getTimeAgo parse now None = ''unknown time''
   \<and> getTimeAgo parse now (Some []) = ''unknown time''
   \<and> (ts \<noteq> [] \<and> parse ts = Some t \<and> now < t \<longrightarrow>
        getTimeAgo parse now (Some ts) = ''recently'')
   \<and> (ts \<noteq> [] \<and> parse ts = Some t \<and> t \<le> now \<longrightarrow>
        getTimeAgo parse now (Some ts) = describe_elapsed (nat (now - t)))"
proof -
  have "getTimeAgo parse now None = ''unknown time''"
    and "getTimeAgo parse now (Some []) = ''unknown time''"
    by (simp_all add: getTimeAgo_def)
  then show ?thesis
    using getTimeAgo_nonempty getTimeAgo_future getTimeAgo_past by blast
qed

theorem getTimeAgo_total_witness:
  "getTimeAgo (\<lambda>s. if s = ''2025-01-01T12:00:00Z'' then Some 1735732800000 else None)
     1735732700000 (Some ''2025-01-01T12:00:00Z'') = ''recently''
   \<and> getTimeAgo (\<lambda>s. if s = ''2025-01-01T12:00:00Z'' then Some 1735732800000 else None)
     1735740100000 (Some ''2025-01-01T12:00:00Z'') = ''2 hours ago''"
  using getTimeAgo_total [of "\<lambda>s. if s = ''2025-01-01T12:00:00Z'' then Some 1735732800000 else None"
      1735732700000 None "''2025-01-01T12:00:00Z''" 1735732800000]
    getTimeAgo_total [of "\<lambda>s. if s = ''2025-01-01T12:00:00Z'' then Some 1735732800000 else None"
      1735740100000 None "''2025-01-01T12:00:00Z''" 1735732800000]
  by (simp add: describe_elapsed_def ago_def string_of_nat.simps digit_char_def)

subsection \<open>The order of attempts\<close>

lemma tryIndividualAPI_trace:
  "\<exists>new k. 1 \<le> k \<and> k \<le> maxAttempts
      \<and> snd (tryIndividualAPI e api tr) = tr @ new
      \<and> attempted new = []
      \<and> delays new = map (\<lambda>j. 500 * j) [1..<k]
      \<and> length (fetches new) \<le> k
      \<and> (fst (tryIndividualAPI e api tr) = None \<longrightarrow> k = maxAttempts)"
  using tryAttempts_trace[of 1 e api tr] by (simp add: tryIndividualAPI_def maxAttempts_def)

lemma tryIndividualAPI_attempted:
  "\<exists>new. snd (tryIndividualAPI e api tr) = tr @ new \<and> attempted new = []"
  using tryIndividualAPI_trace[of e api tr] by blast

lemma tryConfigs_trace:
  "\<exists>new. snd (tryConfigs e apis tr) = tr @ new \<and> prefix (attempted new) apis
      \<and> (fst (tryConfigs e apis tr) = None \<longrightarrow> attempted new = apis)"
proof (induction apis arbitrary: tr)
  case Nil
  then show ?case by simp
next
  case (Cons api rest)
  obtain res tr1 where t: "tryIndividualAPI e api (tr @ [Trying api]) = (res, tr1)"
    by (cases "tryIndividualAPI e api (tr @ [Trying api])")
  obtain n1 where n1: "tr1 = (tr @ [Trying api]) @ n1" "attempted n1 = []"
    using tryIndividualAPI_attempted[of e api "tr @ [Trying api]"] t by auto
  show ?case
  proof (cases res)
    case (Some s)
    with t n1 show ?thesis
      by (intro exI[of _ "Trying api # n1"]) simp
  next
    case None
    let ?tr2 = "if rest \<noteq> [] then tr1 @ [Sleep 1000] else tr1"
    obtain n2 where n2: "?tr2 = tr1 @ n2" "attempted n2 = []"
      by (cases "rest = []") auto
    from Cons.IH[of ?tr2] obtain new where H:
      "snd (tryConfigs e rest ?tr2) = ?tr2 @ new \<and> prefix (attempted new) rest
        \<and> (fst (tryConfigs e rest ?tr2) = None \<longrightarrow> attempted new = rest)"
      by (elim exE) (erule that)
    have eq: "tryConfigs e (api # rest) tr = tryConfigs e rest ?tr2"
      using t None by simp
    show ?thesis
      apply (rule exI[of _ "Trying api # n1 @ n2 @ new"])
      using H n1 n2
      apply (simp only: eq)
      apply (simp add: attempted_append)
      done
  qed
qed

lemma tryConfigs_sample:
  "tryConfigs e apis tr = (Some s, tr')
     \<Longrightarrow> isLive s \<and> reliable s \<and> isLastKnown s = None
         \<and> (\<exists>r. price s = Fin r \<and> 10 \<le> r \<and> r \<le> 200)"
proof (induction apis arbitrary: tr)
  case Nil
  then show ?case by simp
next
  case (Cons api rest)
  obtain res tr1 where t: "tryIndividualAPI e api (tr @ [Trying api]) = (res, tr1)"
    by (cases "tryIndividualAPI e api (tr @ [Trying api])")
  show ?case
  proof (cases res)
    case (Some s1)
    with t Cons.prems have "tryAttempts e api 1 (tr @ [Trying api]) = (Some s, tr1)"
      by (simp add: tryIndividualAPI_def)
    then show ?thesis using tryAttempts_sample by blast
  next
    case None
    with t Cons.prems Cons.IH show ?thesis by simp
  qed
qed

lemma loadAPIConfig_trace:
  "\<exists>new. snd (loadAPIConfig e tr) = tr @ new \<and> attempted new = []"
proof -
  obtain cfg tr1 where l: "loadWithFallback (apis_json e) ''data/apis.json'' None 2 tr = (cfg, tr1)"
    by (cases "loadWithFallback (apis_json e) ''data/apis.json'' None 2 tr")
  then have "snd (loadAPIConfig e tr) = tr1"
    by (simp add: loadAPIConfig_def Let_def split: option.splits array_doc.splits)
  with l loadWithFallback_trace[of "apis_json e" "''data/apis.json''" None 2 tr]
  show ?thesis by simp
qed

lemma fallback_available: "api \<in> set getFallbackAPIConfig \<Longrightarrow> isAPIAvailable e api"
  by (auto simp: getFallbackAPIConfig_def isAPIAvailable_def)

lemma loadAPIConfig_available:
  "api \<in> set (fst (loadAPIConfig e tr)) \<Longrightarrow> isAPIAvailable e api"
  by (auto simp: loadAPIConfig_def Let_def fallback_available
           split: prod.splits option.splits array_doc.splits if_splits)

lemma loadAPIConfig_sorted: "sorted (map priority (fst (loadAPIConfig e tr)))"
proof -
  have "sorted (map priority (filter P (sort_key priority cfg)))" for P and cfg :: "endpoint list"
    by (simp add: sorted_filter)
  then show ?thesis
    by (auto simp: loadAPIConfig_def Let_def getFallbackAPIConfig_def
             split: prod.splits option.splits array_doc.splits)
qed

lemma loadAPIConfig_loaded:
  assumes "fst (loadWithFallback (apis_json e) ''data/apis.json'' None 2 tr) = Some (Arr cfg)"
    and "A \<in> set cfg" and "isAPIAvailable e A"
  shows "fst (loadAPIConfig e tr) = filter (isAPIAvailable e) (sort_key priority cfg)"
proof -
  from assms(2,3) have "filter (isAPIAvailable e) (sort_key priority cfg) \<noteq> []"
    by (auto simp: filter_empty_conv)
  with assms(1) show ?thesis
    by (auto simp: loadAPIConfig_def Let_def split: prod.splits)
qed

lemma tryAllLiveAPIs_trace:
  "\<exists>new. snd (tryAllLiveAPIs e tr) = tr @ new
      \<and> prefix (attempted new) (fst (loadAPIConfig e tr))
      \<and> (fst (tryAllLiveAPIs e tr) = None \<longrightarrow> attempted new = fst (loadAPIConfig e tr))"
proof -
  obtain apis tr1 where l: "loadAPIConfig e tr = (apis, tr1)" by (cases "loadAPIConfig e tr")
  obtain n1 where n1: "tr1 = tr @ n1" "attempted n1 = []"
    using loadAPIConfig_trace[of e tr] l by auto
  obtain new where H: "snd (tryConfigs e apis tr1) = tr1 @ new \<and> prefix (attempted new) apis
      \<and> (fst (tryConfigs e apis tr1) = None \<longrightarrow> attempted new = apis)"
    using tryConfigs_trace[of e apis tr1] by (elim exE) (erule that)
  show ?thesis
    apply (rule exI[of _ "n1 @ new"])
    using H n1 l
    apply (simp add: tryAllLiveAPIs_def attempted_append)
    done
qed

lemma sorted_before:
  assumes "sorted (map f (pre @ b # post))" and "a \<in> set (pre @ b # post)" and "f a < f b"
  shows "a \<in> set pre \<and> a \<notin> set post"
proof -
  from assms(1) have "\<forall>y \<in> set (b # post). f b \<le> f y"
    by (auto simp: sorted_append)
  with assms(2,3) show ?thesis by fastforce
qed

lemma prefix_sorted:
  assumes "prefix xs ys" and "sorted (map f ys)"
  shows "sorted (map f xs)"
proof -
  from assms(1) obtain zs where "ys = xs @ zs" by (auto simp: prefix_def)
  with assms(2) show ?thesis by (simp add: sorted_append)
qed

text \<open>
  C1. Endpoints are attempted in ascending order of priority. When the configuration
  \<open>cfg\<close> has loaded and \<open>A\<close> and \<open>B\<close> are available endpoints of it with
  \<open>priority A < priority B\<close>, then at any attempt of \<open>B\<close> by \<open>tryAllLiveAPIs\<close> the
  endpoint \<open>A\<close> has been attempted before and is not attempted afterwards. The
  priorities of the attempted endpoints never decrease along the run: the attempted
  endpoints are an initial part of the available ones in priority order, and all of them
  when no endpoint succeeds.
\<close>

theorem attempts_follow_priority:
  assumes "fst (loadWithFallback (apis_json e) ''data/apis.json'' None 2 tr) = Some (Arr cfg)"
    and "A \<in> set cfg" and "B \<in> set cfg"
    and "isAPIAvailable e A" and "isAPIAvailable e B"
    and "priority A < priority B"
    and "attempted (drop (length tr) (snd (tryAllLiveAPIs e tr))) = pre @ B # post"
  shows "A \<in> set pre \<and> A \<notin> set post
         \<and> sorted (map priority (attempted (drop (length tr) (snd (tryAllLiveAPIs e tr)))))
         \<and> prefix (attempted (drop (length tr) (snd (tryAllLiveAPIs e tr))))
              (filter (isAPIAvailable e) (sort_key priority cfg))
         \<and> (fst (tryAllLiveAPIs e tr) = None \<longrightarrow>
              attempted (drop (length tr) (snd (tryAllLiveAPIs e tr)))
                = filter (isAPIAvailable e) (sort_key priority cfg))"
proof -
  let ?apis = "fst (loadAPIConfig e tr)"
  obtain new where H: "snd (tryAllLiveAPIs e tr) = tr @ new
      \<and> prefix (attempted new) ?apis
      \<and> (fst (tryAllLiveAPIs e tr) = None \<longrightarrow> attempted new = ?apis)"
    using tryAllLiveAPIs_trace[of e tr] by (elim exE) (erule that)
  then have new: "snd (tryAllLiveAPIs e tr) = tr @ new" "prefix (attempted new) ?apis"
    "fst (tryAllLiveAPIs e tr) = None \<longrightarrow> attempted new = ?apis"
    by simp_all
  from new(1) assms(7) have att: "attempted new = pre @ B # post" by simp
  with new(2) obtain rest where rest: "?apis = pre @ B # (post @ rest)"
    by (auto simp: prefix_def)
  have apis: "?apis = filter (isAPIAvailable e) (sort_key priority cfg)"
    using assms(1,2,4) by (rule loadAPIConfig_loaded)
  with assms(2,4) have "A \<in> set ?apis" by simp
  with rest have "A \<in> set (pre @ B # (post @ rest))" by simp
  moreover have "sorted (map priority (pre @ B # (post @ rest)))"
    using loadAPIConfig_sorted[of e tr] rest by simp
  ultimately have "A \<in> set pre \<and> A \<notin> set (post @ rest)"
    using assms(6) sorted_before[of priority pre B "post @ rest" A] by blast
  then have c1: "A \<in> set pre \<and> A \<notin> set post" by simp
  have c2: "sorted (map priority (attempted new))"
    using new(2) loadAPIConfig_sorted by (rule prefix_sorted)
  have c3: "prefix (attempted new) (filter (isAPIAvailable e) (sort_key priority cfg))"
    using new(2) unfolding apis .
  have c4: "fst (tryAllLiveAPIs e tr) = None \<longrightarrow>
              attempted new = filter (isAPIAvailable e) (sort_key priority cfg)"
    using new(3) unfolding apis .
  have d: "drop (length tr) (snd (tryAllLiveAPIs e tr)) = new"
    using new(1) by simp
  show ?thesis unfolding d using c1 c2 c3 c4 by blast
qed

lemma env_silent_config:
  "fst (loadWithFallback (apis_json env_silent) ''data/apis.json'' None 2 []) = Some (Arr [ep_gold, ep_metals])"
  by code_simp

lemma env_silent_available: "isAPIAvailable env_silent ep_metals" "isAPIAvailable env_silent ep_gold"
  by code_simp+

lemma env_silent_attempted:
  "attempted (drop (length ([] :: trace)) (snd (tryAllLiveAPIs env_silent []))) = [ep_metals] @ ep_gold # []"
  by code_simp

theorem attempts_follow_priority_witness:
  "ep_metals \<in> set [ep_metals] \<and> ep_metals \<notin> set []
   \<and> sorted (map priority (attempted (drop (length ([] :: trace)) (snd (tryAllLiveAPIs env_silent [])))))"
  using attempts_follow_priority[OF env_silent_config _ _ env_silent_available _ env_silent_attempted]
  by (simp add: ep_metals_def ep_gold_def)

subsection \<open>Endpoints that need a missing key\<close>

lemma getLastKnownPrice_trace:
  "\<exists>new. snd (getLastKnownPrice e tr) = tr @ new \<and> attempted new = []"
proof -
  obtain d tr1 where l:
    "loadWithFallback (daily_prices_json e) ''data/daily-prices.json'' (Some (Arr [])) 2 tr = (d, tr1)"
    by (cases "loadWithFallback (daily_prices_json e) ''data/daily-prices.json'' (Some (Arr [])) 2 tr")
  then have "snd (getLastKnownPrice e tr) = tr1"
    by (simp add: getLastKnownPrice_def Let_def split: option.splits array_doc.splits list.splits)
  with l loadWithFallback_trace[of "daily_prices_json e" "''data/daily-prices.json''" "Some (Arr [])" 2 tr]
  show ?thesis by simp
qed

lemma tryAllLiveAPIs_available:
  "\<exists>new. snd (tryAllLiveAPIs e tr) = tr @ new
      \<and> (\<forall>api \<in> set (attempted new). isAPIAvailable e api)"
proof -
  obtain new where new: "snd (tryAllLiveAPIs e tr) = tr @ new"
    "prefix (attempted new) (fst (loadAPIConfig e tr))"
    using tryAllLiveAPIs_trace[of e tr] by blast
  from new(2) have "set (attempted new) \<subseteq> set (fst (loadAPIConfig e tr))"
    by (rule set_mono_prefix)
  with new(1) loadAPIConfig_available show ?thesis by blast
qed

lemma getCurrentPrice_available:
  "\<exists>new. snd (getCurrentPrice e tr) = tr @ new
      \<and> (\<forall>api \<in> set (attempted new). isAPIAvailable e api)"
proof -
  obtain res tr1 where t: "tryAllLiveAPIs e tr = (res, tr1)" by (cases "tryAllLiveAPIs e tr")
  obtain n1 where n1: "tr1 = tr @ n1" "\<forall>api \<in> set (attempted n1). isAPIAvailable e api"
    using tryAllLiveAPIs_available[of e tr] t by auto
  show ?thesis
  proof (cases res)
    case (Some s)
    with t n1 show ?thesis by (auto simp: getCurrentPrice_def)
  next
    case None
    obtain n2 where n2: "snd (getLastKnownPrice e tr1) = tr1 @ n2" "attempted n2 = []"
      using getLastKnownPrice_trace[of e tr1] by blast
    show ?thesis
      apply (rule exI[of _ "n1 @ n2"])
      using t None n1 n2
      apply (simp add: getCurrentPrice_def attempted_append)
      done
  qed
qed

lemma loadAppData_trace:
  "\<exists>new. snd (loadAppData e tr) = tr @ new \<and> attempted new = []"
proof -
  obtain r tr1 where a:
    "loadWithFallback (recipients_json e) ''data/recipients.json'' (Some []) maxRetries tr = (r, tr1)"
    by (cases "loadWithFallback (recipients_json e) ''data/recipients.json'' (Some []) maxRetries tr")
  obtain n1 where n1: "tr1 = tr @ n1" "attempted n1 = []"
    using loadWithFallback_trace[of "recipients_json e" "''data/recipients.json''" "Some []" maxRetries tr] a
    by auto
  obtain d tr2 where b:
    "loadWithFallback (daily_prices_json e) ''data/daily-prices.json'' (Some (Arr [])) maxRetries tr1 = (d, tr2)"
    by (cases "loadWithFallback (daily_prices_json e) ''data/daily-prices.json'' (Some (Arr [])) maxRetries tr1")
  obtain n2 where n2: "tr2 = tr1 @ n2" "attempted n2 = []"
    using loadWithFallback_trace[of "daily_prices_json e" "''data/daily-prices.json''" "Some (Arr [])" maxRetries tr1] b
    by auto
  show ?thesis
    apply (rule exI[of _ "n1 @ n2"])
    using a b n1 n2
    apply (simp add: loadAppData_def attempted_append)
    done
qed

lemma loadAndRender_available:
  "\<exists>new. snd (loadAndRender e tr) = tr @ new
      \<and> (\<forall>api \<in> set (attempted new). isAPIAvailable e api)"
proof -
  obtain loaded dailyPrices tr1 where a: "loadAppData e tr = ((loaded, dailyPrices), tr1)"
    by (cases "loadAppData e tr") auto
  obtain n1 where n1: "tr1 = tr @ n1" "attempted n1 = []"
    using loadAppData_trace[of e tr] a by auto
  obtain n2 where n2: "snd (getCurrentPrice e tr1) = tr1 @ n2"
    "\<forall>api \<in> set (attempted n2). isAPIAvailable e api"
    using getCurrentPrice_available[of e tr1] by blast
  have "snd (loadAndRender e tr) = tr1 \<or> snd (loadAndRender e tr) = snd (getCurrentPrice e tr1)"
    using a by (simp add: loadAndRender_def Let_def split: option.splits prod.splits)
  then show ?thesis
  proof
    assume "snd (loadAndRender e tr) = tr1"
    with n1 show ?thesis by (intro exI[of _ n1]) simp
  next
    assume "snd (loadAndRender e tr) = snd (getCurrentPrice e tr1)"
    with n1 n2 show ?thesis by (intro exI[of _ "n1 @ n2"]) (simp add: attempted_append)
  qed
qed

lemma init_available: "api \<in> set (attempted (snd (init e))) \<Longrightarrow> isAPIAvailable e api"
proof -
  have "snd (init e) = snd (loadAndRender e [])"
    by (simp add: init_def split: prod.splits sum.splits)
  with loadAndRender_available[of e "[]"] show "api \<in> set (attempted (snd (init e))) \<Longrightarrow> isAPIAvailable e api"
    by auto
qed

lemma loadAttempts_fetches:
  "\<exists>new. snd (loadAttempts server u fb retries attempt tr) = tr @ new
      \<and> set (fetches new) \<subseteq> {u}"
proof (induction "Suc retries - attempt" arbitrary: attempt tr)
  case 0
  then have "\<not> attempt \<le> retries" by simp
  then show ?case by (simp add: loadAttempts.simps)
next
  case (Suc n)
  then have le: "attempt \<le> retries" by simp
  from Suc have n: "n = Suc retries - (attempt + 1)" by simp
  obtain new where new:
    "snd (loadAttempts server u fb retries (attempt + 1)
            ((tr @ [Fetch u]) @ [Sleep (retryDelay * attempt)])) =
       ((tr @ [Fetch u]) @ [Sleep (retryDelay * attempt)]) @ new"
    "set (fetches new) \<subseteq> {u}"
    using Suc.hyps(1)[OF n] by blast
  show ?case
    using le new
    by (subst loadAttempts.simps)
       (auto simp: Let_def fetches_append split: response.splits option.splits)
qed

lemma attemptAPI_fetches:
  "\<exists>new. snd (attemptAPI e api tr) = tr @ new
      \<and> (\<forall>u \<in> set (fetches new). buildAPIUrl e api = Some u)"
  by (auto simp: attemptAPI_def Let_def split: option.splits response.splits)

lemma tryAttempts_fetches:
  "\<exists>new. snd (tryAttempts e api attempt tr) = tr @ new
      \<and> (\<forall>u \<in> set (fetches new). buildAPIUrl e api = Some u)"
proof (induction "Suc maxAttempts - attempt" arbitrary: attempt tr)
  case 0
  then have "\<not> attempt \<le> maxAttempts" by simp
  then show ?case by (simp add: tryAttempts_done)
next
  case (Suc n)
  then have le: "attempt \<le> maxAttempts" by simp
  obtain res tr1 where a: "attemptAPI e api tr = (res, tr1)" by (cases "attemptAPI e api tr")
  obtain n1 where n1: "tr1 = tr @ n1" "\<forall>u \<in> set (fetches n1). buildAPIUrl e api = Some u"
    using attemptAPI_fetches[of e api tr] a by auto
  show ?case
  proof (cases res)
    case (Some s1)
    with a le have "tryAttempts e api attempt tr = (Some s1, tr1)"
      by (simp add: tryAttempts_success)
    with n1 show ?thesis by (intro exI[of _ n1]) simp
  next
    case None
    show ?thesis
    proof (cases "attempt = maxAttempts")
      case True
      with a None have "tryAttempts e api attempt tr = (None, tr1)"
        by (simp add: tryAttempts_last)
      with n1 show ?thesis by (intro exI[of _ n1]) simp
    next
      case False
      with le have lt: "attempt < maxAttempts" by simp
      from Suc.hyps(2) have n: "n = Suc maxAttempts - (attempt + 1)" by simp
      let ?tr2 = "tr1 @ [Sleep (500 * attempt)]"
      have eq: "tryAttempts e api attempt tr = tryAttempts e api (attempt + 1) ?tr2"
        using a None lt by (simp add: tryAttempts_retry)
      from Suc.hyps(1)[OF n, of ?tr2]
      obtain new where H: "snd (tryAttempts e api (attempt + 1) ?tr2) = ?tr2 @ new
          \<and> (\<forall>u \<in> set (fetches new). buildAPIUrl e api = Some u)"
        by (elim exE) (erule that)
      show ?thesis
        apply (rule exI[of _ "n1 @ [Sleep (500 * attempt)] @ new"])
        using H n1
        apply (simp only: eq)
        apply (auto simp: fetches_append)
        done
    qed
  qed
qed

lemma tryConfigs_fetches:
  "\<exists>new. snd (tryConfigs e apis tr) = tr @ new
      \<and> (\<forall>u \<in> set (fetches new). \<exists>api \<in> set (attempted new). buildAPIUrl e api = Some u)"
proof (induction apis arbitrary: tr)
  case Nil
  then show ?case by simp
next
  case (Cons api rest)
  obtain res tr1 where t: "tryIndividualAPI e api (tr @ [Trying api]) = (res, tr1)"
    by (cases "tryIndividualAPI e api (tr @ [Trying api])")
  obtain n1 where n1: "tr1 = (tr @ [Trying api]) @ n1"
    "\<forall>u \<in> set (fetches n1). buildAPIUrl e api = Some u"
    using tryAttempts_fetches[of e api 1 "tr @ [Trying api]"] t
    by (auto simp: tryIndividualAPI_def)
  show ?case
  proof (cases res)
    case (Some s)
    with t n1 show ?thesis
      by (intro exI[of _ "Trying api # n1"]) simp
  next
    case None
    let ?tr2 = "if rest \<noteq> [] then tr1 @ [Sleep 1000] else tr1"
    obtain n2 where n2: "?tr2 = tr1 @ n2" "fetches n2 = []"
      by (cases "rest = []") auto
    from Cons.IH[of ?tr2] obtain new where H:
      "snd (tryConfigs e rest ?tr2) = ?tr2 @ new
        \<and> (\<forall>u \<in> set (fetches new). \<exists>api \<in> set (attempted new). buildAPIUrl e api = Some u)"
      by (elim exE) (erule that)
    have eq: "tryConfigs e (api # rest) tr = tryConfigs e rest ?tr2"
      using t None by simp
    show ?thesis
      apply (rule exI[of _ "Trying api # n1 @ n2 @ new"])
      using H n1 n2
      apply (simp only: eq)
      apply (auto simp: attempted_append fetches_append)
      done
  qed
qed

lemma loadAPIConfig_fetches:
  "\<exists>new. snd (loadAPIConfig e tr) = tr @ new \<and> attempted new = []
      \<and> set (fetches new) \<subseteq> {''data/apis.json''}"
proof -
  obtain cfg tr1 where l: "loadWithFallback (apis_json e) ''data/apis.json'' None 2 tr = (cfg, tr1)"
    by (cases "loadWithFallback (apis_json e) ''data/apis.json'' None 2 tr")
  then have s: "snd (loadAPIConfig e tr) = tr1"
    by (simp add: loadAPIConfig_def Let_def split: option.splits array_doc.splits)
  obtain n1 where n1: "tr1 = tr @ n1" "attempted n1 = []"
    using loadWithFallback_trace[of "apis_json e" "''data/apis.json''" None 2 tr] l by auto
  obtain n2 where n2: "tr1 = tr @ n2" "set (fetches n2) \<subseteq> {''data/apis.json''}"
    using loadAttempts_fetches[of "apis_json e" "''data/apis.json''" None 2 1 tr] l
    by (auto simp: loadWithFallback_def)
  from n1(1) n2(1) have "n1 = n2" by simp
  with s n1 n2 show ?thesis by blast
qed

lemma tryAllLiveAPIs_fetches:
  "\<exists>new. snd (tryAllLiveAPIs e tr) = tr @ new
      \<and> (\<forall>u \<in> set (fetches new).
            u = ''data/apis.json''
            \<or> (\<exists>api \<in> set (attempted new). buildAPIUrl e api = Some u))"
proof -
  obtain apis tr1 where l: "loadAPIConfig e tr = (apis, tr1)" by (cases "loadAPIConfig e tr")
  obtain n1 where n1: "tr1 = tr @ n1" "attempted n1 = []"
    "set (fetches n1) \<subseteq> {''data/apis.json''}"
    using loadAPIConfig_fetches[of e tr] l by auto
  obtain new where H: "snd (tryConfigs e apis tr1) = tr1 @ new
      \<and> (\<forall>u \<in> set (fetches new). \<exists>api \<in> set (attempted new). buildAPIUrl e api = Some u)"
    using tryConfigs_fetches[of e apis tr1] by (elim exE) (erule that)
  show ?thesis
    apply (rule exI[of _ "n1 @ new"])
    using H n1 l
    apply (auto simp: tryAllLiveAPIs_def attempted_append fetches_append)
    done
qed

lemma unavailable_no_url:
  assumes "authentication api \<noteq> ''none''" and "authentication api \<notin> fst ` set (query e)"
  shows "buildAPIUrl e api = None"
  using assms map_of_eq_None_iff[of "query e" "authentication api"]
  by (simp add: buildAPIUrl_def params_get_def)

text \<open>
  C2. An endpoint whose \<open>authentication\<close> is not "none" and whose parameter is absent from
  the query string is not available, is not in the list that \<open>loadAPIConfig\<close> returns,
  and is never attempted: neither by \<open>tryAllLiveAPIs\<close> from any starting trace nor
  anywhere in the page load \<open>init\<close>. No URL can be built for it, and every request that
  \<open>tryAllLiveAPIs\<close> makes is for the configuration file or for the URL of another
  endpoint, one that it attempted.
\<close>

theorem unavailable_endpoint_skipped:
  assumes "authentication api \<noteq> ''none''"
    and "authentication api \<notin> fst ` set (query e)"
  shows "\<not> isAPIAvailable e api
         \<and> api \<notin> set (fst (loadAPIConfig e tr))
         \<and> api \<notin> set (attempted (drop (length tr) (snd (tryAllLiveAPIs e tr))))
         \<and> api \<notin> set (attempted (snd (init e)))
         \<and> buildAPIUrl e api = None
         \<and> (\<forall>u \<in> set (fetches (drop (length tr) (snd (tryAllLiveAPIs e tr)))).
               u = ''data/apis.json''
               \<or> (\<exists>a \<in> set (attempted (drop (length tr) (snd (tryAllLiveAPIs e tr)))).
                     a \<noteq> api \<and> buildAPIUrl e a = Some u))"
proof -
  from assms have na: "\<not> isAPIAvailable e api"
    by (simp add: isAPIAvailable_def params_has_def map_of_eq_None_iff)
  have nu: "buildAPIUrl e api = None" using assms by (rule unavailable_no_url)
  obtain new where new: "snd (tryAllLiveAPIs e tr) = tr @ new"
    "\<forall>a \<in> set (attempted new). isAPIAvailable e a"
    using tryAllLiveAPIs_available[of e tr] by blast
  then have d: "drop (length tr) (snd (tryAllLiveAPIs e tr)) = new" by simp
  obtain new' where new': "snd (tryAllLiveAPIs e tr) = tr @ new'"
    "\<forall>u \<in> set (fetches new'). u = ''data/apis.json''
        \<or> (\<exists>a \<in> set (attempted new'). buildAPIUrl e a = Some u)"
    using tryAllLiveAPIs_fetches[of e tr] by blast
  from new(1) new'(1) have same: "new' = new" by simp
  have f: "\<forall>u \<in> set (fetches new). u = ''data/apis.json''
        \<or> (\<exists>a \<in> set (attempted new). a \<noteq> api \<and> buildAPIUrl e a = Some u)"
    using new'(2) nu unfolding same by fastforce
  from na new(2) have "api \<notin> set (attempted new)" by auto
  with na nu f show ?thesis
    unfolding d
    using loadAPIConfig_available[of api e tr] init_available[of api e] by blast
qed

lemma env_no_key_attempted: "attempted (snd (init env_no_key)) = [ep_gold]"
  by code_simp

theorem unavailable_endpoint_skipped_witness:
  "\<not> isAPIAvailable env_no_key ep_metals
   \<and> ep_metals \<notin> set (fst (loadAPIConfig env_no_key []))
   \<and> ep_metals \<notin> set (attempted (drop (length ([] :: trace)) (snd (tryAllLiveAPIs env_no_key []))))
   \<and> ep_metals \<notin> set (attempted (snd (init env_no_key)))
   \<and> buildAPIUrl env_no_key ep_metals = None"
  using unavailable_endpoint_skipped[of ep_metals env_no_key "[]"]
  by (simp add: ep_metals_def env_no_key_def example_env_def)

subsection \<open>The accepted price band\<close>

lemma out_of_band_falsy:
  "num_lt p 10 \<or> num_gt p 200 \<Longrightarrow> \<not> (num_truthy p \<and> num_ge p 10 \<and> num_le p 200)"
  by (cases p) auto

lemma attemptAPI_out_of_band:
  assumes "buildAPIUrl e api = Some u" and "api_server e (tr @ [Fetch u]) = Parsed data"
    and "extractPrice e data api = Some p" and "num_lt p 10 \<or> num_gt p 200"
  shows "attemptAPI e api tr = (None, tr @ [Fetch u])"
  using assms(1-3) out_of_band_falsy[OF assms(4)]
  by (simp add: attemptAPI_def Let_def)

lemma tryAllLiveAPIs_sample:
  assumes "fst (tryAllLiveAPIs e tr) = Some s"
  shows "isLive s \<and> reliable s \<and> isLastKnown s = None
         \<and> (\<exists>r. price s = Fin r \<and> 10 \<le> r \<and> r \<le> 200)"
proof -
  obtain apis tr1 where l: "loadAPIConfig e tr = (apis, tr1)" by (cases "loadAPIConfig e tr")
  with assms have "tryConfigs e apis tr1 = (Some s, snd (tryConfigs e apis tr1))"
    by (simp add: tryAllLiveAPIs_def prod_eq_iff)
  then show ?thesis by (rule tryConfigs_sample)
qed

lemma getLastKnownPrice_sample:
  assumes "fst (getLastKnownPrice e tr) = Some s"
  shows "\<not> isLive s \<and> \<not> reliable s \<and> isLastKnown s = Some True"
  using assms
  by (auto simp: getLastKnownPrice_def Let_def
           split: prod.splits option.splits array_doc.splits list.splits)

lemma getCurrentPrice_cases:
  "fst (getCurrentPrice e tr) = fst (tryAllLiveAPIs e tr)
   \<or> (fst (tryAllLiveAPIs e tr) = None
       \<and> fst (getCurrentPrice e tr) = fst (getLastKnownPrice e (snd (tryAllLiveAPIs e tr))))"
  by (cases "tryAllLiveAPIs e tr") (auto simp: getCurrentPrice_def split: option.splits)

text \<open>
  C3. An extracted price below 10 or above 200 makes the attempt fail without a sample,
  and every live sample, whether returned by \<open>tryIndividualAPI\<close>, by \<open>tryAllLiveAPIs\<close> or by
  \<open>getCurrentPrice\<close>, has a finite price between 10 and 200.
\<close>

theorem price_band:
  "(buildAPIUrl e api = Some u \<and> api_server e (tr @ [Fetch u]) = Parsed data
      \<and> extractPrice e data api = Some p \<and> (num_lt p 10 \<or> num_gt p 200)
      \<longrightarrow> attemptAPI e api tr = (None, tr @ [Fetch u]))
   \<and> (fst (tryIndividualAPI e api tr) = Some s
      \<longrightarrow> isLive s \<and> (\<exists>r. price s = Fin r \<and> 10 \<le> r \<and> r \<le> 200))
   \<and> (fst (tryAllLiveAPIs e tr) = Some s
      \<longrightarrow> isLive s \<and> (\<exists>r. price s = Fin r \<and> 10 \<le> r \<and> r \<le> 200))
   \<and> (fst (getCurrentPrice e tr) = Some s \<and> isLive s
      \<longrightarrow> (\<exists>r. price s = Fin r \<and> 10 \<le> r \<and> r \<le> 200))"
proof -
  have a: "fst (tryIndividualAPI e api tr) = Some s
      \<Longrightarrow> isLive s \<and> (\<exists>r. price s = Fin r \<and> 10 \<le> r \<and> r \<le> 200)"
    using tryAttempts_sample[of e api 1 tr s "snd (tryAttempts e api 1 tr)"]
    by (simp add: tryIndividualAPI_def prod_eq_iff)
  have b: "fst (tryAllLiveAPIs e tr) = Some s
      \<Longrightarrow> isLive s \<and> (\<exists>r. price s = Fin r \<and> 10 \<le> r \<and> r \<le> 200)"
    using tryAllLiveAPIs_sample[of e tr s] by simp
  have c: "fst (getCurrentPrice e tr) = Some s \<Longrightarrow> isLive s
      \<Longrightarrow> \<exists>r. price s = Fin r \<and> 10 \<le> r \<and> r \<le> 200"
    using getCurrentPrice_cases[of e tr] b
      getLastKnownPrice_sample[of e "snd (tryAllLiveAPIs e tr)" s]
    by auto
  show ?thesis using attemptAPI_out_of_band a b c by blast
qed

lemma env_high_facts:
  "buildAPIUrl env_high ep_gold = Some ''https://api.gold-api.com/price/XAG''"
  "api_server env_high ([] @ [Fetch ''https://api.gold-api.com/price/XAG''])
     = Parsed (JObj [(''price'', JNum (Fin 250))])"
  "extractPrice env_high (JObj [(''price'', JNum (Fin 250))]) ep_gold = Some (Fin 250)"
  by code_simp+

lemma env_rate_facts: "fst (getCurrentPrice env_rate []) = Some sample_rate" "isLive sample_rate"
  by code_simp+

theorem price_band_witness:
  "attemptAPI env_high ep_gold [] = (None, [] @ [Fetch ''https://api.gold-api.com/price/XAG''])
   \<and> (\<exists>r. price sample_rate = Fin r \<and> 10 \<le> r \<and> r \<le> 200)"
  using price_band[of env_high ep_gold "''https://api.gold-api.com/price/XAG''" "[]"
      "JObj [(''price'', JNum (Fin 250))]" "Fin 250" sample_rate]
    price_band[of env_rate ep_gold "''''" "[]" JNull NaN sample_rate]
    env_high_facts env_rate_facts
  by simp

subsection \<open>The last known price\<close>

lemma loadAttempts_fallback:
  assumes "\<forall>t d. server t \<noteq> Parsed (Some d)"
  shows "fst (loadAttempts server u fb retries attempt tr) = fb"
proof (induction "Suc retries - attempt" arbitrary: attempt tr)
  case 0
  then have "\<not> attempt \<le> retries" by simp
  then show ?case by (simp add: loadAttempts.simps)
next
  case (Suc n)
  then have le: "attempt \<le> retries" by simp
  from Suc have n: "n = Suc retries - (attempt + 1)" by simp
  have nf: "server (tr @ [Fetch u]) \<noteq> Parsed (Some d)" for d using assms by simp
  show ?case
    using le nf Suc.hyps(1)[OF n]
    by (subst loadAttempts.simps)
       (auto simp: Let_def split: response.splits option.splits)
qed

lemma getCurrentPrice_fallback:
  "tryAllLiveAPIs e tr = (None, tr1) \<Longrightarrow> getCurrentPrice e tr = getLastKnownPrice e tr1"
  by (simp add: getCurrentPrice_def)

text \<open>
  C4. When \<open>tryAllLiveAPIs\<close> returns nothing, \<open>getCurrentPrice\<close> loads the historical
  series. If that is a non-empty array, the result is the sample built from its last
  entry: that entry's price, its source or "historical", not live, marked last known. If
  the series is empty, is not an array, or cannot be loaded (no request for it is answered
  with a body other than \<open>null\<close>), there is no sample.
\<close>

theorem last_known_price:
  assumes "tryAllLiveAPIs e tr = (None, tr1)"
    and "loadWithFallback (daily_prices_json e) ''data/daily-prices.json'' (Some (Arr [])) 2 tr1
           = (series, tr2)"
  shows "(series = Some (Arr es) \<and> es \<noteq> [] \<longrightarrow>
            getCurrentPrice e tr =
              (Some \<lparr> price = entry_price (last es),
                      source = (case entry_source (last es) of
                                  None \<Rightarrow> ''historical''
                                | Some src \<Rightarrow> if src = [] then ''historical'' else src),
                      timestamp = entry_date (last es) @ ''T12:00:00Z'',
                      isLive = False,
                      isLastKnown = Some True,
                      reliable = False \<rparr>, tr2))
         \<and> (series = Some (Arr []) \<or> series = Some NotArray \<or> series = None \<longrightarrow>
               getCurrentPrice e tr = (None, tr2))
         \<and> ((\<forall>t d. daily_prices_json e t \<noteq> Parsed (Some d)) \<longrightarrow>
               getCurrentPrice e tr = (None, tr2))"
proof -
  have g: "getCurrentPrice e tr = getLastKnownPrice e tr1"
    using assms(1) by (rule getCurrentPrice_fallback)
  have 1: "getCurrentPrice e tr =
              (Some \<lparr> price = entry_price (last es),
                      source = (case entry_source (last es) of
                                  None \<Rightarrow> ''historical''
                                | Some src \<Rightarrow> if src = [] then ''historical'' else src),
                      timestamp = entry_date (last es) @ ''T12:00:00Z'',
                      isLive = False,
                      isLastKnown = Some True,
                      reliable = False \<rparr>, tr2)"
    if "series = Some (Arr es)" "es \<noteq> []"
  proof -
    from that obtain x xs where "es = x # xs" by (cases es) auto
    with that assms(2) show ?thesis
      unfolding g by (simp add: getLastKnownPrice_def Let_def)
  qed
  have 2: "getCurrentPrice e tr = (None, tr2)"
    if "series = Some (Arr []) \<or> series = Some NotArray \<or> series = None"
    using that assms(2) unfolding g by (auto simp: getLastKnownPrice_def Let_def)
  have 3: "getCurrentPrice e tr = (None, tr2)"
    if "\<forall>t d. daily_prices_json e t \<noteq> Parsed (Some d)"
  proof -
    from that have "fst (loadWithFallback (daily_prices_json e) ''data/daily-prices.json''
                          (Some (Arr [])) 2 tr1) = Some (Arr [])"
      unfolding loadWithFallback_def by (rule loadAttempts_fallback)
    with assms(2) have "series = Some (Arr [])" by simp
    then show ?thesis using 2 by simp
  qed
  from 1 2 3 show ?thesis by blast
qed

lemma env_history_live: "tryAllLiveAPIs env_history [] = (None, snd (tryAllLiveAPIs env_history []))"
  by code_simp

lemma env_history_series:
  "loadWithFallback (daily_prices_json env_history) ''data/daily-prices.json'' (Some (Arr [])) 2
     (snd (tryAllLiveAPIs env_history []))
   = (Some (Arr [entry1, entry2]),
      snd (tryAllLiveAPIs env_history []) @ [Fetch ''data/daily-prices.json''])"
  by code_simp

theorem last_known_price_witness:
  "getCurrentPrice env_history [] =
     (Some \<lparr> price = Fin 30.75, source = ''historical'', timestamp = ''2025-10-31T12:00:00Z'',
             isLive = False, isLastKnown = Some True, reliable = False \<rparr>,
      snd (tryAllLiveAPIs env_history []) @ [Fetch ''data/daily-prices.json''])"
  using last_known_price[OF env_history_live env_history_series, of "[entry1, entry2]"]
  by (simp add: entry2_def)

subsection \<open>Bounded retries\<close>

lemma sorted_delays: "sorted_wrt (<) (map (\<lambda>j. 500 * j) [a..<k] :: nat list)"
  by (simp add: sorted_wrt_map sorted_wrt_iff_nth_less)

lemma tryConfigs_moves_on:
  "fst (tryIndividualAPI e api (tr @ [Trying api])) = None \<Longrightarrow>
     tryConfigs e (api # rest) tr =
       tryConfigs e rest
         (if rest \<noteq> [] then snd (tryIndividualAPI e api (tr @ [Trying api])) @ [Sleep 1000]
          else snd (tryIndividualAPI e api (tr @ [Trying api])))"
  by (cases "tryIndividualAPI e api (tr @ [Trying api])") simp

lemma tryAttempts_all_fail:
  assumes "\<forall>t. fst (attemptAPI e api t) = None"
  shows "fst (tryAttempts e api attempt tr) = None"
proof (induction "Suc maxAttempts - attempt" arbitrary: attempt tr)
  case 0
  then have "\<not> attempt \<le> maxAttempts" by simp
  then show ?case by (simp add: tryAttempts_done)
next
  case (Suc n)
  then have le: "attempt \<le> maxAttempts" by simp
  obtain tr1 where a: "attemptAPI e api tr = (None, tr1)"
    using assms by (cases "attemptAPI e api tr") (auto dest: spec[of _ tr])
  show ?case
  proof (cases "attempt = maxAttempts")
    case True
    with a show ?thesis by (simp add: tryAttempts_last)
  next
    case False
    with le have lt: "attempt < maxAttempts" by simp
    from Suc.hyps(2) have n: "n = Suc maxAttempts - (attempt + 1)" by simp
    from a lt Suc.hyps(1)[OF n] show ?thesis by (simp add: tryAttempts_retry)
  qed
qed

text \<open>
  C8. \<open>tryIndividualAPI\<close> always returns, after \<open>k\<close> attempts with \<open>1 \<le> k \<le> 3\<close>: it
  fetches at most \<open>k\<close> times, the delays it awaits are \<open>500 * j\<close> for the attempts
  \<open>j < k\<close>, a strictly increasing sequence, and it returns nothing only after the third
  attempt. If every attempt fails it returns nothing, and \<open>tryAllLiveAPIs\<close> then goes on
  with the remaining endpoints.
\<close>

theorem retries_bounded:
  "(\<exists>new k. 1 \<le> k \<and> k \<le> 3
       \<and> snd (tryIndividualAPI e api tr) = tr @ new
       \<and> length (fetches new) \<le> k
       \<and> delays new = map (\<lambda>j. 500 * j) [1..<k]
       \<and> sorted_wrt (<) (delays new)
       \<and> (fst (tryIndividualAPI e api tr) = None \<longrightarrow> k = 3))
   \<and> ((\<forall>t. fst (attemptAPI e api t) = None) \<longrightarrow> fst (tryIndividualAPI e api tr) = None)
   \<and> (fst (tryIndividualAPI e api (tr @ [Trying api])) = None \<longrightarrow>
        tryConfigs e (api # rest) tr =
          tryConfigs e rest
            (if rest \<noteq> [] then snd (tryIndividualAPI e api (tr @ [Trying api])) @ [Sleep 1000]
             else snd (tryIndividualAPI e api (tr @ [Trying api]))))"
proof -
  obtain new k where H: "1 \<le> k \<and> k \<le> maxAttempts
      \<and> snd (tryIndividualAPI e api tr) = tr @ new
      \<and> attempted new = []
      \<and> delays new = map (\<lambda>j. 500 * j) [1..<k]
      \<and> length (fetches new) \<le> k
      \<and> (fst (tryIndividualAPI e api tr) = None \<longrightarrow> k = maxAttempts)"
    using tryIndividualAPI_trace[of e api tr] by (elim exE) (erule that)
  then have "sorted_wrt (<) (delays new)" by (simp only: sorted_delays)
  with H have "\<exists>new k. 1 \<le> k \<and> k \<le> 3
       \<and> snd (tryIndividualAPI e api tr) = tr @ new
       \<and> length (fetches new) \<le> k
       \<and> delays new = map (\<lambda>j. 500 * j) [1..<k]
       \<and> sorted_wrt (<) (delays new)
       \<and> (fst (tryIndividualAPI e api tr) = None \<longrightarrow> k = 3)"
    by (intro exI[of _ new] exI[of _ k]) (simp add: maxAttempts_def)
  moreover have "(\<forall>t. fst (attemptAPI e api t) = None) \<longrightarrow> fst (tryIndividualAPI e api tr) = None"
    by (simp add: tryIndividualAPI_def tryAttempts_all_fail)
  ultimately show ?thesis using tryConfigs_moves_on by blast
qed

lemma env_silent_gold_fails: "fst (tryIndividualAPI env_silent ep_gold ([] @ [Trying ep_gold])) = None"
  by code_simp

theorem retries_bounded_witness:
  "tryConfigs env_silent (ep_gold # [ep_metals]) [] =
     tryConfigs env_silent [ep_metals]
       (if [ep_metals] \<noteq> [] then snd (tryIndividualAPI env_silent ep_gold ([] @ [Trying ep_gold])) @ [Sleep 1000]
        else snd (tryIndividualAPI env_silent ep_gold ([] @ [Trying ep_gold])))"
  using retries_bounded[of env_silent ep_gold "[]" "[ep_metals]"] env_silent_gold_fails by blast

subsection \<open>Shapes of a sample and the price label\<close>

lemma getCurrentPrice_shape:
  assumes "fst (getCurrentPrice e tr) = Some s"
  shows "(isLive s \<and> reliable s \<and> isLastKnown s = None)
         \<or> (\<not> isLive s \<and> \<not> reliable s \<and> isLastKnown s = Some True)"
  using assms getCurrentPrice_cases[of e tr] tryAllLiveAPIs_sample[of e tr s]
    getLastKnownPrice_sample[of e "snd (tryAllLiveAPIs e tr)" s]
  by auto

text \<open>
  C9, as amended. A sample produced by \<open>getCurrentPrice\<close> is either live (live, reliable,
  no last-known mark) or historical (not live, not reliable, marked last known), never
  both. When its price is truthy the page shows the price under the label
  "Last known value" if the sample is marked last known and "Current value" otherwise;
  when its price is falsy (zero or \<open>NaN\<close>) the page shows no price and no label.
\<close>

theorem sample_shapes:
  assumes "fst (getCurrentPrice e tr) = Some s"
  shows "((isLive s \<and> reliable s \<and> isLastKnown s = None)
          \<or> (\<not> isLive s \<and> \<not> reliable s \<and> isLastKnown s = Some True))
         \<and> \<not> ((isLive s \<and> reliable s \<and> isLastKnown s = None)
               \<and> (\<not> isLive s \<and> \<not> reliable s \<and> isLastKnown s = Some True))
         \<and> (num_truthy (price s) \<longrightarrow>
              (\<exists>label cls. createGiftContent (Some s) = PriceShown label cls
                 \<and> (label = ''Last known value'' \<longleftrightarrow> isLastKnown s = Some True)
                 \<and> (label = ''Current value'' \<longleftrightarrow> isLastKnown s \<noteq> Some True)))
         \<and> (\<not> num_truthy (price s) \<longrightarrow> createGiftContent (Some s) = PriceUnavailable)"
  using getCurrentPrice_shape[OF assms] by (auto simp: createGiftContent_def)

theorem sample_shapes_witness:
  "\<exists>label cls. createGiftContent (Some sample_rate) = PriceShown label cls
      \<and> (label = ''Last known value'' \<longleftrightarrow> isLastKnown sample_rate = Some True)
      \<and> (label = ''Current value'' \<longleftrightarrow> isLastKnown sample_rate \<noteq> Some True)"
  using sample_shapes[OF env_rate_facts(1)] by (simp add: sample_rate_def)

text \<open>
  C9 as first stated fails where the historical series ends with the price 0: the sample
  is marked last known, yet the page shows the price-unavailable message, which has no
  "Last known value" label.
\<close>

theorem last_known_without_label:
  "fst (getCurrentPrice env_zero []) =
     Some \<lparr> price = Fin 0, source = ''historical'', timestamp = ''2025-10-31T12:00:00Z'',
            isLive = False, isLastKnown = Some True, reliable = False \<rparr>
   \<and> createGiftContent (fst (getCurrentPrice env_zero [])) = PriceUnavailable"
  by code_simp

subsection \<open>Unknown recipients\<close>

lemma loadAppData_recipients:
  "fst (fst (loadAppData e tr))
     = fst (loadWithFallback (recipients_json e) ''data/recipients.json'' (Some []) maxRetries tr)"
  by (simp add: loadAppData_def Let_def split: prod.splits)

text \<open>
  For every other identifier that is missing, empty or absent from the loaded map, the
  page shows the recipient selector.
\<close>

lemma unknown_recipient_selector:
  assumes "fst (fst (loadAppData e [])) = Some recipients"
    and "getRecipientFromUrl e = None \<or> getRecipientFromUrl e = Some []
         \<or> (\<exists>rid. getRecipientFromUrl e = Some rid \<and> rid \<notin> fst ` set recipients
                \<and> rid \<noteq> ''__proto__'' \<and> rid \<notin> set object_methods)"
  shows "fst (init e) = RecipientSelector recipients"
proof -
  obtain dailyPrices tr1 where a: "loadAppData e [] = ((Some recipients, dailyPrices), tr1)"
    using assms(1) by (cases "loadAppData e []") auto
  have "rid \<notin> fst ` set recipients \<Longrightarrow> rid \<noteq> ''__proto__'' \<Longrightarrow> rid \<notin> set object_methods
          \<Longrightarrow> lookup_member recipients rid = Absent" for rid
    using map_of_eq_None_iff[of recipients rid] by (simp add: lookup_member_def)
  with assms(2) a show ?thesis
    by (auto simp: init_def loadAndRender_def Let_def split: option.splits)
qed

text \<open>
  C6 at the identifier \<open>toString\<close>. The recipient map holds \<open>john\<close> only, so the identifier
  is absent from it; \<open>recipients[recipientId]\<close> is nevertheless the function inherited from
  \<open>Object.prototype\<close>, which is truthy, and the application fetches a price and renders
  the gift page for that function instead of the recipient selector.
\<close>

theorem inherited_name_gets_gift_page:
  "getRecipientFromUrl env_toString = Some ''toString''
   \<and> fst (fst (loadAppData env_toString [])) = Some [(''john'', john)]
   \<and> ''toString'' \<notin> fst ` set [(''john'', john)]
   \<and> fst (init env_toString) =
       GiftPage Inherited (Some (Arr []))
         (Some \<lparr> price = Fin 31.25, source = ''gold-api'',
                 timestamp = ''2025-11-02T09:30:00.000Z'',
                 isLive = True, isLastKnown = None, reliable = True \<rparr>)"
  by code_simp

subsection \<open>Path extraction\<close>

lemma parseJSONPath_NotIterable:
  "parseJSONPath p = NotIterable \<longleftrightarrow> p = ''__proto__'' \<or> p \<in> set object_methods"
  by (auto simp: parseJSONPath_def lookup_member_def complexPaths_def object_methods_def
           split: option.splits)

text \<open>
  For every path string that resolves to keys, \<open>extractPrice\<close> returns \<open>null\<close> when the
  walk stops at a missing key or the value reached does not parse (it cannot be printed,
  or it reads as \<open>NaN\<close>), and otherwise the parsed number, divided into 1 exactly when
  \<open>rate_conversion\<close> is "invert".
\<close>

lemma extractPrice_keys:
  assumes "parseJSONPath (price_path api) = Keys keys"
  shows "extractPrice e data api =
           (case walk (Data data) keys of
              None \<Rightarrow> None
            | Some v \<Rightarrow>
                (case parseFloat (parse_number e) v of
                   None \<Rightarrow> None
                 | Some p \<Rightarrow>
                     if p = NaN then None
                     else if rate_conversion api = Some ''invert''
                     then Some (js_divide e (Fin 1) p)
                     else Some p))"
  using assms by (simp add: extractPrice_def isNaN_def split: option.splits)

text \<open>
  C7 at the path \<open>valueOf\<close>. The response has the key and its value is the number 25, so
  the walk along the dotted path succeeds and the value parses; but
  \<open>complexPaths[pathString]\<close> is the function inherited from \<open>Object.prototype\<close>, which
  \<open>parseJSONPath\<close> returns in place of a list of keys, and \<open>extractPrice\<close> returns \<open>null\<close>.
\<close>

theorem inherited_path_yields_null:
  "price_path ep_odd = ''valueOf''
   \<and> split_str (price_path ep_odd) ''.'' = [''valueOf'']
   \<and> walk (Data (JObj [(''valueOf'', JNum (Fin 25))])) [''valueOf''] = Some (Data (JNum (Fin 25)))
   \<and> parseFloat (parse_number env_toString) (Data (JNum (Fin 25))) = Some (Fin 25)
   \<and> parseJSONPath (price_path ep_odd) = NotIterable
   \<and> extractPrice env_toString (JObj [(''valueOf'', JNum (Fin 25))]) ep_odd = None"
  by code_simp

end
